theory Spec2Isabelle
  imports Main "HOL-Library.Sublist"
begin

section \<open>Error values (package worker\_error and the library errors it wraps)\<close>

text \<open>
  A value of Go's interface type \<open>error\<close> is \<open>nil\<close> or a dynamic value. The dynamic values
  this program meets are: the sentinel \<open>iterator.Done\<close> (compared by identity in the
  source, hence a constructor of its own); \<open>*exec.ExitError\<close>, holding the process
  state's text (\<open>exit status 128\<close>) and the standard error that \<open>Cmd.Output\<close> captured
  in its field \<open>Stderr\<close>; any other library error, kept opaque as the pair of its
  \<open>Error()\<close> text and of what \<open>json.Marshal\<close> yields for it (\<open>None\<close> when marshalling
  fails); and the package's own struct \<open>err{Err, Extra}\<close>.
\<close>

datatype error =
    nil
  | iterator_Done
  | LibError (lib_text: string) (lib_json: "string option")
  | ExitError (exit_state: string) (Stderr: string)
  | WorkerError err
and err = Mk_err (Err: error) (Extra: string)

text \<open>\<open>func New(e error, extra string) error { return err{Err: e, Extra: extra} }\<close>\<close>

definition New :: "error \<Rightarrow> string \<Rightarrow> error" where
  "New e extra = WorkerError (Mk_err e extra)"

text \<open>\<open>func (e err) Unwrap() error { return e.Err }\<close>\<close>

definition Unwrap :: "err \<Rightarrow> error" where
  "Unwrap e = Err e"

subsection \<open>encoding/json on the values above\<close>

definition dq :: char where
  "dq = CHR 0x22"

definition quoted :: "string \<Rightarrow> string" where
  "quoted s = dq # s @ [dq]"

definition hex_digit :: "nat \<Rightarrow> char" where
  "hex_digit n = ''0123456789abcdef'' ! (n mod 16)"

text \<open>
  One byte of a Go string inside a JSON string, as \<open>json.Marshal\<close> writes it (HTML
  escaping is on): the quote and the backslash get a backslash, newline, carriage return
  and tab their letter, every other control byte and \<open><\<close>, \<open>>\<close>, \<open>&\<close> the form
  \<open>\u00XX\<close>. Bytes from 0x80 on are copied, which is what the encoder does for valid
  UTF-8 other than U+2028 and U+2029.
\<close>

definition json_byte :: "char \<Rightarrow> string" where
  "json_byte c =
     (if c = dq then [CHR 0x5C, dq]
      else if c = CHR 0x5C then [CHR 0x5C, CHR 0x5C]
      else if c = CHR 0x0A then [CHR 0x5C, CHR ''n'']
      else if c = CHR 0x0D then [CHR 0x5C, CHR ''r'']
      else if c = CHR 0x09 then [CHR 0x5C, CHR ''t'']
      else if (of_char c :: nat) < 32 \<or> c = CHR ''<'' \<or> c = CHR ''>'' \<or> c = CHR ''&''
        then [CHR 0x5C, CHR ''u'', CHR ''0'', CHR ''0'',
              hex_digit ((of_char c :: nat) div 16), hex_digit (of_char c :: nat)]
      else [c])"

definition json_string :: "string \<Rightarrow> string" where
  "json_string s = quoted (concat (map json_byte s))"

text \<open>A byte slice is written as a base64 string (standard alphabet, padded).\<close>

definition b64_char :: "nat \<Rightarrow> char" where
  "b64_char n =
     ''ABCDEFGHIJKLMNOPQRSTUVWXYZabcdefghijklmnopqrstuvwxyz0123456789+/'' ! (n mod 64)"

fun base64 :: "nat list \<Rightarrow> string" where
  "base64 [] = []"
| "base64 [a] = [b64_char (a div 4), b64_char ((a mod 4) * 16), CHR ''='', CHR ''='']"
| "base64 [a, b] =
     [b64_char (a div 4), b64_char ((a mod 4) * 16 + b div 16),
      b64_char ((b mod 16) * 4), CHR ''='']"
| "base64 (a # b # c # rest) =
     [b64_char (a div 4), b64_char ((a mod 4) * 16 + b div 16),
      b64_char ((b mod 16) * 4 + c div 64), b64_char (c mod 64)] @ base64 rest"

definition json_bytes :: "string \<Rightarrow> string" where
  "json_bytes bs = (if bs = [] then ''null'' else quoted (base64 (map of_char bs)))"

definition json_object :: "(string \<times> string) list \<Rightarrow> string" where
  "json_object members =
     ''{'' @ concat (map (\<lambda>(i, (k, v)). (if i = 0 then [] else '','') @ quoted k @ '':'' @ v)
                        (enumerate 0 members)) @ ''}''"

text \<open>
  \<open>json.Marshal\<close> of an error value writes the dynamic value by reflection, one member
  per exported field; it never calls \<open>Error()\<close>. So \<open>iterator.Done\<close>, made by
  \<open>errors.New\<close>, is \<open>{}\<close>; an \<open>*exec.ExitError\<close> shows its only exported field,
  \<open>Stderr\<close>; and the struct \<open>err\<close> follows its tags \<open>json:"err,omitempty"\<close> and
  \<open>json:"extra,omitempty"\<close>: a nil \<open>Err\<close> and an empty \<open>Extra\<close> are left out.
\<close>

fun marshal_error :: "error \<Rightarrow> string option"
  and marshal_err :: "err \<Rightarrow> string option" where
  "marshal_error nil = Some ''null''"
| "marshal_error iterator_Done = Some ''{}''"
| "marshal_error (LibError t j) = j"
| "marshal_error (ExitError st se) = Some (json_object [(''Stderr'', json_bytes se)])"
| "marshal_error (WorkerError e) = marshal_err e"
| "marshal_err (Mk_err e extra) =
     (let tail = (if extra = [] then [] else [(''extra'', json_string extra)])
      in if e = nil then Some (json_object tail)
         else (case marshal_error e of
                 None \<Rightarrow> None
               | Some j \<Rightarrow> Some (json_object ((''err'', j) # tail))))"

text \<open>
  \<open>fmt_s\<close> is how \<open>fmt\<close> prints an error under \<open>%s\<close>: the \<open>Error()\<close> text of a non-nil
  value. \<open>Error\<close> is the method of the struct (source lines 257 to 263): the JSON text
  when marshalling succeeds, the format \<open>Err: %s | Extra: %s\<close> otherwise.
\<close>

fun fmt_s :: "error \<Rightarrow> string"
  and Error :: "err \<Rightarrow> string" where
  "fmt_s nil = ''%!s(<nil>)''"
| "fmt_s iterator_Done = ''no more items in iterator''"
| "fmt_s (LibError t j) = t"
| "fmt_s (ExitError st se) = st"
| "fmt_s (WorkerError e) = Error e"
| "Error (Mk_err e extra) =
     (case marshal_err (Mk_err e extra) of
        Some d \<Rightarrow> d
      | None \<Rightarrow> ''Err: '' @ fmt_s e @ '' | Extra: '' @ extra)"

text \<open>\<open>strings.Contains\<close>, for statements about what a message holds.\<close>

fun Contains :: "string \<Rightarrow> string \<Rightarrow> bool" where
  "Contains [] sub = (sub = [])"
| "Contains (c # s) sub = (prefix sub (c # s) \<or> Contains s sub)"

section \<open>The job (struct Data) and its paths\<close>

record Data =
  UserID :: string
  GithubToken :: string
  GithubUsername :: string
  RepoName :: string
  ProjectName :: string
  FileName :: string
  StorageFilePath :: string
  CommitMessage :: string

text \<open>\<open>fmt.Sprintf\<close> with \<open>%s\<close> on strings is concatenation.\<close>

definition localWorkingDir :: "Data \<Rightarrow> string" where
  "localWorkingDir d = ''/tmp/'' @ UserID d"

definition localRepoPath :: "Data \<Rightarrow> string" where
  "localRepoPath d = localWorkingDir d @ ''/'' @ RepoName d"

definition localProjectPath :: "Data \<Rightarrow> string" where
  "localProjectPath d = localRepoPath d @ ''/'' @ ProjectName d"

definition localRelativeFilePath :: "Data \<Rightarrow> string" where
  "localRelativeFilePath d = ProjectName d @ ''/'' @ FileName d"

definition localFilePath :: "Data \<Rightarrow> string" where
  "localFilePath d = localRepoPath d @ ''/'' @ localRelativeFilePath d"

section \<open>The world outside the program\<close>

text \<open>
  Everything the program does is a call to the operating system, to \<open>git\<close> or to the
  object store. The model keeps a \<open>world\<close>: the local file system (which paths exist, and
  what a file holds), the \<open>trace\<close> of external calls made so far (oldest first), and the
  two package variables \<open>once\<close> and \<open>storageClient\<close>. Paths are compared as written:
  symbolic links, dot segments and repeated or trailing slashes are not resolved, and a
  created entry does not record its parents.
\<close>

datatype node = Dir | File string

datatype client = Client

text \<open>
  One event per external call, with its arguments: \<open>storage.NewClient\<close>; a command run
  (\<open>cmd.Dir\<close> and the argument vector); \<open>os.Mkdir\<close>; \<open>os.RemoveAll\<close>; \<open>it.Next()\<close> on the
  listing of a bucket under a prefix; \<open>NewReader\<close> on an object of a bucket; \<open>os.MkdirAll\<close>;
  \<open>os.Create\<close>; \<open>io.Copy\<close> from an object into a path; the \<open>Close\<close> of a file and of a
  reader; a line written by the logger.
\<close>

datatype event =
    EvNewClient
  | EvExec string "string list"
  | EvMkdir string
  | EvRemoveAll string
  | EvNext string string
  | EvNewReader string string
  | EvMkdirAll string
  | EvCreate string
  | EvCopy string string
  | EvFileClose string
  | EvReaderClose string
  | EvLog string

record world =
  fs :: "string \<Rightarrow> node option"
  trace :: "event list"
  once_done :: bool
  storageClient :: "client option"

text \<open>
  How a started command ended: it exited with a status, or it did not run to an exit
  of its own (the program was not found, the directory is missing, the context was
  cancelled), which \<open>os/exec\<close> reports with the error given.
\<close>

datatype exit = Exited nat | NotRun error

text \<open>
  What the program does not decide is a parameter: the environment variables read at
  start, the library functions \<open>json.Unmarshal\<close>, \<open>path.Dir\<close> and the \<open>%q\<close> verb of
  \<open>fmt\<close>, and the answers of the outside world. Each answer may depend on the whole
  world at the moment of the call, its history included. A \<open>fault\<close> answers \<open>nil\<close> when
  the call goes through.
  \<^item> \<open>run_command w dir argv\<close>: how the command ended, its standard output, the standard
    error captured, and the file system it leaves.
  \<^item> \<open>removeAll_fault w path\<close>: the error of \<open>os.RemoveAll\<close> and, when it is not \<open>nil\<close>,
    which paths of the tree it could not remove.
  \<^item> \<open>bucket_keys w bucket\<close>: the object names of the bucket, in the order the store
    lists them; \<open>list_fault w bucket prefix\<close>: \<open>Some (n, e)\<close> when the listing breaks
    with error \<open>e\<close> after \<open>n\<close> names.
  \<^item> \<open>copy_result w object path\<close>: the bytes \<open>io.Copy\<close> got into the file, and its error.
\<close>

record env =
  bucketName :: string
  committerEmail :: string
  committerName :: string
  json_Unmarshal :: "string \<Rightarrow> error \<times> Data"
  path_Dir :: "string \<Rightarrow> string"
  fmt_q :: "string \<Rightarrow> string"
  newClient_fault :: "world \<Rightarrow> error"
  run_command :: "world \<Rightarrow> string \<Rightarrow> string list \<Rightarrow> exit \<times> string \<times> string \<times> (string \<Rightarrow> node option)"
  mkdir_fault :: "world \<Rightarrow> string \<Rightarrow> error"
  removeAll_fault :: "world \<Rightarrow> string \<Rightarrow> error \<times> (string \<Rightarrow> bool)"
  bucket_keys :: "world \<Rightarrow> string \<Rightarrow> string list"
  list_fault :: "world \<Rightarrow> string \<Rightarrow> string \<Rightarrow> (nat \<times> error) option"
  newReader_fault :: "world \<Rightarrow> string \<Rightarrow> string \<Rightarrow> error"
  mkdirAll_fault :: "world \<Rightarrow> string \<Rightarrow> error"
  create_fault :: "world \<Rightarrow> string \<Rightarrow> error"
  copy_result :: "world \<Rightarrow> string \<Rightarrow> string \<Rightarrow> string \<times> error"

definition emit :: "event \<Rightarrow> world \<Rightarrow> world" where
  "emit e w = w\<lparr>trace := trace w @ [e]\<rparr>"

subsection \<open>The logger (src/bar/baz/logger.go)\<close>

record Entry =
  Message :: string
  Severity :: string
  Trace :: string
  Component :: string

text \<open>
  \<open>Entry.String\<close>: an empty severity becomes \<open>INFO\<close>, then the entry is marshalled; the
  message is always written, the three other fields only when not empty.
\<close>

definition Entry_String :: "Entry \<Rightarrow> string" where
  "Entry_String e0 =
     (let e = (if Severity e0 = [] then e0\<lparr>Severity := ''INFO''\<rparr> else e0)
      in json_object
           ([(''message'', json_string (Message e))]
            @ (if Severity e = [] then [] else [(''severity'', json_string (Severity e))])
            @ (if Trace e = [] then []
               else [(''logger.googleapis.com/trace'', json_string (Trace e))])
            @ (if Component e = [] then [] else [(''component'', json_string (Component e))])))"

text \<open>
  \<open>log.Error(v)\<close> prints the entry with \<open>Message = fmt.Sprint(v)\<close> and severity \<open>ERROR\<close>
  as one line on standard error. The argument here is the text \<open>fmt.Sprint\<close> gives.
\<close>

definition log_Error :: "string \<Rightarrow> world \<Rightarrow> world" where
  "log_Error msg w =
     emit (EvLog (Entry_String \<lparr>Message = msg, Severity = ''ERROR'', Trace = [], Component = []\<rparr>)) w"

subsection \<open>Library calls\<close>

fun digits :: "nat \<Rightarrow> string" where
  "digits n =
     (if n < 10 then [''0123456789'' ! n]
      else digits (n div 10) @ [''0123456789'' ! (n mod 10)])"

declare digits.simps [simp del]

text \<open>
  An \<open>*fs.PathError{Op, Path, Err}\<close> with a \<open>syscall.Errno\<close>: its text is
  \<open>op path: message\<close>, and marshalled it shows the three fields, the errno as a number.
\<close>

definition PathError :: "string \<Rightarrow> string \<Rightarrow> string \<Rightarrow> nat \<Rightarrow> error" where
  "PathError op path msg errno =
     LibError (op @ '' '' @ path @ '': '' @ msg)
       (Some (json_object
          [(''Op'', json_string op), (''Path'', json_string path), (''Err'', digits errno)]))"

definition EEXIST :: "string \<Rightarrow> string \<Rightarrow> error" where
  "EEXIST op path = PathError op path ''file exists'' 17"

definition ENOTDIR :: "string \<Rightarrow> string \<Rightarrow> error" where
  "ENOTDIR op path = PathError op path ''not a directory'' 20"

definition EISDIR :: "string \<Rightarrow> string \<Rightarrow> error" where
  "EISDIR op path = PathError op path ''is a directory'' 21"

text \<open>\<open>os.Mkdir\<close> fails when the path exists; otherwise it may fail for a reason of the
  environment's, or it creates the directory.\<close>

definition os_Mkdir :: "env \<Rightarrow> string \<Rightarrow> world \<Rightarrow> error \<times> world" where
  "os_Mkdir E p w =
     (let w1 = emit (EvMkdir p) w
      in if fs w p \<noteq> None then (EEXIST ''mkdir'' p, w1)
         else if mkdir_fault E w p \<noteq> nil then (mkdir_fault E w p, w1)
         else (nil, w1\<lparr>fs := (fs w)(p \<mapsto> Dir)\<rparr>))"

text \<open>\<open>os.MkdirAll\<close> does nothing on a directory that exists and fails on a file.\<close>

definition os_MkdirAll :: "env \<Rightarrow> string \<Rightarrow> world \<Rightarrow> error \<times> world" where
  "os_MkdirAll E p w =
     (let w1 = emit (EvMkdirAll p) w
      in case fs w p of
           Some Dir \<Rightarrow> (nil, w1)
         | Some (File c) \<Rightarrow> (ENOTDIR ''mkdir'' p, w1)
         | None \<Rightarrow>
             if mkdirAll_fault E w p \<noteq> nil then (mkdirAll_fault E w p, w1)
             else (nil, w1\<lparr>fs := (fs w)(p \<mapsto> Dir)\<rparr>))"

text \<open>\<open>os.Create\<close> creates the file or truncates it; it fails on a directory.\<close>

definition os_Create :: "env \<Rightarrow> string \<Rightarrow> world \<Rightarrow> error \<times> world" where
  "os_Create E p w =
     (let w1 = emit (EvCreate p) w
      in if fs w p = Some Dir then (EISDIR ''open'' p, w1)
         else if create_fault E w p \<noteq> nil then (create_fault E w p, w1)
         else (nil, w1\<lparr>fs := (fs w)(p \<mapsto> File [])\<rparr>))"

definition io_Copy :: "env \<Rightarrow> string \<Rightarrow> string \<Rightarrow> world \<Rightarrow> error \<times> world" where
  "io_Copy E object p w =
     (case copy_result E w object p of
        (bytes, e) \<Rightarrow> (e, (emit (EvCopy object p) w)\<lparr>fs := (fs w)(p \<mapsto> File bytes)\<rparr>))"

definition File_Close :: "string \<Rightarrow> world \<Rightarrow> world" where
  "File_Close p w = emit (EvFileClose p) w"

definition Reader_Close :: "string \<Rightarrow> world \<Rightarrow> world" where
  "Reader_Close object w = emit (EvReaderClose object) w"

definition in_subtree :: "string \<Rightarrow> string \<Rightarrow> bool" where
  "in_subtree p q = (q = p \<or> prefix (p @ ''/'') q)"

text \<open>
  \<open>os.RemoveAll\<close> removes the path and everything below it. When it fails it has
  removed what it could: the entries the environment names stay.
\<close>

definition os_RemoveAll :: "env \<Rightarrow> string \<Rightarrow> world \<Rightarrow> error \<times> world" where
  "os_RemoveAll E p w =
     (case removeAll_fault E w p of
        (e, stays) \<Rightarrow>
          (e, (emit (EvRemoveAll p) w)
                \<lparr>fs := (\<lambda>q. if in_subtree p q \<and> (e = nil \<or> \<not> stays q) then None else fs w q)\<rparr>))"

text \<open>
  \<open>Cmd.Output\<close> with \<open>Stdout\<close> and \<open>Stderr\<close> unset: it returns the standard output, and for
  an exit status other than 0 an \<open>*exec.ExitError\<close> whose \<open>Stderr\<close> is the captured
  standard error.
\<close>

definition cmd_Output :: "env \<Rightarrow> string \<Rightarrow> string list \<Rightarrow> world \<Rightarrow> (string \<times> error) \<times> world" where
  "cmd_Output E dir argv w =
     (case run_command E w dir argv of
        (st, out, errout, fs') \<Rightarrow>
          ((out, (case st of
                    Exited n \<Rightarrow> if n = 0 then nil else ExitError (''exit status '' @ digits n) errout
                  | NotRun e \<Rightarrow> e)),
           (emit (EvExec dir argv) w)\<lparr>fs := fs'\<rparr>))"

text \<open>\<open>strings.HasSuffix\<close>\<close>

definition HasSuffix :: "string \<Rightarrow> string \<Rightarrow> bool" where
  "HasSuffix s suf = suffix suf s"

text \<open>
  \<open>bucket.Objects(ctx, &storage.Query{Prefix: p})\<close>: an iterator over the names of the
  bucket that begin with \<open>p\<close>, in the store's order. The iterator holds the bucket, the
  prefix, the names still to come and the error that ends the listing (\<open>nil\<close> when the
  listing is complete). A bucket holds finitely many objects, so the names are a list.
  \<open>it.Next()\<close> gives the next name, then \<open>iterator.Done\<close> at the end of a complete
  listing or the listing's error.
\<close>

datatype ObjectIterator = ObjectIterator string string "string list" error

definition bucket_Objects :: "env \<Rightarrow> string \<Rightarrow> world \<Rightarrow> ObjectIterator" where
  "bucket_Objects E p w =
     (let names = filter (prefix p) (bucket_keys E w (bucketName E))
      in case list_fault E w (bucketName E) p of
           None \<Rightarrow> ObjectIterator (bucketName E) p names nil
         | Some (n, e) \<Rightarrow> ObjectIterator (bucketName E) p (take n names) e)"

definition storage_NewReader :: "env \<Rightarrow> string \<Rightarrow> world \<Rightarrow> error \<times> world" where
  "storage_NewReader E object w =
     (newReader_fault E w (bucketName E) object, emit (EvNewReader (bucketName E) object) w)"

section \<open>The program\<close>

text \<open>
  A function either returns its error value or panics. The one panic of this program is
  the nil pointer dereference in the storage library when \<open>storageClient\<close> is nil.
\<close>

datatype outcome = Returned error | Panicked

subsection \<open>setup (source lines 80 to 98)\<close>

text \<open>The function \<open>setup\<close> of the source is \<open>setup_fn\<close> here.\<close>

definition storage_NewClient :: "env \<Rightarrow> world \<Rightarrow> error \<times> world" where
  "storage_NewClient E w =
     (let e = newClient_fault E w
      in (e, (emit EvNewClient w)\<lparr>storageClient := (if e = nil then Some Client else None)\<rparr>))"

definition setup_fn :: "env \<Rightarrow> world \<Rightarrow> error \<times> world" where
  "setup_fn E w =
     (case storage_NewClient E w of
        (err, w1) \<Rightarrow>
          if err \<noteq> nil then (err, w1)
          else (case cmd_Output E []
                       [''git'', ''config'', ''--global'', ''user.email'', quoted (committerEmail E)] w1 of
                  ((out, err), w2) \<Rightarrow>
                    if err \<noteq> nil then (New err out, w2)
                    else (case cmd_Output E []
                                 [''git'', ''config'', ''--global'', ''user.name'', quoted (committerName E)] w2 of
                            ((out, err), w3) \<Rightarrow>
                              if err \<noteq> nil then (New err out, w3) else (nil, w3))))"

subsection \<open>The stages (source lines 122 to 220)\<close>

definition makeWorkingDir :: "env \<Rightarrow> Data \<Rightarrow> world \<Rightarrow> error \<times> world" where
  "makeWorkingDir E d w = os_Mkdir E (localWorkingDir d) w"

definition clone_url :: "Data \<Rightarrow> string" where
  "clone_url d =
     ''https://'' @ GithubToken d @ ''@github.com/'' @ GithubUsername d @ ''/'' @ RepoName d @ ''.git''"

definition cloneGithubRepo :: "env \<Rightarrow> Data \<Rightarrow> world \<Rightarrow> error \<times> world" where
  "cloneGithubRepo E d w =
     (case cmd_Output E (localWorkingDir d) [''git'', ''clone'', clone_url d] w of
        ((out, err), w1) \<Rightarrow> if err \<noteq> nil then (New err out, w1) else (nil, w1))"

text \<open>
  The function \<open>_writeContentFromStorageToFile\<close> of source lines 167 to 187, for one
  object (a name cannot begin with an underscore here, hence the suffix). The two deferred
  \<open>Close\<close> calls run when it returns, the file's before the reader's.
\<close>

definition writeContentFromStorageToFile_one :: "env \<Rightarrow> Data \<Rightarrow> string \<Rightarrow> world \<Rightarrow> error \<times> world" where
  "writeContentFromStorageToFile_one E d object w =
     (case storage_NewReader E object w of
        (err, w1) \<Rightarrow>
          if err \<noteq> nil then (err, w1)
          else (case os_MkdirAll E (''/tmp/'' @ path_Dir E object) w1 of
                  (err, w2) \<Rightarrow>
                    if err \<noteq> nil then (err, Reader_Close object w2)
                    else (case os_Create E (''/tmp/'' @ object) w2 of
                            (err, w3) \<Rightarrow>
                              if err \<noteq> nil then (err, Reader_Close object w3)
                              else (case io_Copy E object (''/tmp/'' @ object) w3 of
                                      (err, w4) \<Rightarrow>
                                        (err, Reader_Close object
                                                (File_Close (''/tmp/'' @ object) w4))))))"

text \<open>
  The first loop of \<open>writeContentFromStorageToFile\<close> (source lines 143 to 156), one
  equation per answer of \<open>it.Next()\<close>: at the end of the names the loop breaks on
  \<open>iterator.Done\<close> or logs and returns the listing's error; on a name it keeps the name
  unless it ends in a slash, and goes on.
\<close>

function list_loop :: "env \<Rightarrow> ObjectIterator \<Rightarrow> string list \<Rightarrow> world \<Rightarrow> error \<times> string list \<times> world" where
  "list_loop E (ObjectIterator b p [] e) files w =
     (let err = (if e = nil then iterator_Done else e);
          w1 = emit (EvNext b p) w
      in if err = iterator_Done then (nil, files, w1)
         else (err, files,
               log_Error (''Bucket('' @ fmt_q E (bucketName E) @ '').Objects: '' @ fmt_s err) w1))"
| "list_loop E (ObjectIterator b p (name # rest) e) files w =
     list_loop E (ObjectIterator b p rest e)
       (if \<not> HasSuffix name ''/'' then files @ [name] else files)
       (emit (EvNext b p) w)"
  by pat_completeness auto
termination
  by (relation "measure (\<lambda>(E, it, files, w). case it of ObjectIterator b p names e \<Rightarrow> length names)")
     auto

text \<open>The second loop (source lines 158 to 162).\<close>

fun copy_loop :: "env \<Rightarrow> Data \<Rightarrow> string list \<Rightarrow> world \<Rightarrow> error \<times> world" where
  "copy_loop E d [] w = (nil, w)"
| "copy_loop E d (file # files) w =
     (case writeContentFromStorageToFile_one E d file w of
        (err, w1) \<Rightarrow> if err \<noteq> nil then (err, w1) else copy_loop E d files w1)"

definition writeContentFromStorageToFile :: "env \<Rightarrow> Data \<Rightarrow> world \<Rightarrow> outcome \<times> world" where
  "writeContentFromStorageToFile E d w =
     (case storageClient w of
        None \<Rightarrow> (Panicked, w)
      | Some c \<Rightarrow>
          (case list_loop E (bucket_Objects E (UserID d) w) [] w of
             (err, files, w1) \<Rightarrow>
               if err \<noteq> nil then (Returned err, w1)
               else (case copy_loop E d files w1 of (err, w2) \<Rightarrow> (Returned err, w2))))"

definition makeGitCommit :: "env \<Rightarrow> Data \<Rightarrow> world \<Rightarrow> error \<times> world" where
  "makeGitCommit E d w =
     (case cmd_Output E (localRepoPath d) [''git'', ''add'', localRelativeFilePath d] w of
        ((out, err), w1) \<Rightarrow>
          if err \<noteq> nil then (New err out, w1)
          else (case cmd_Output E (localRepoPath d) [''git'', ''commit'', ''-m'', CommitMessage d] w1 of
                  ((out, err), w2) \<Rightarrow> if err \<noteq> nil then (New err out, w2) else (nil, w2)))"

definition pushToRemote :: "env \<Rightarrow> Data \<Rightarrow> world \<Rightarrow> error \<times> world" where
  "pushToRemote E d w =
     (case cmd_Output E (localRepoPath d) [''git'', ''push'', ''-u'', ''origin'', ''HEAD''] w of
        ((out, err), w1) \<Rightarrow> if err \<noteq> nil then (New err out, w1) else (nil, w1))"

text \<open>\<open>cleanup\<close> drops the error of \<open>os.RemoveAll\<close>.\<close>

definition cleanup :: "env \<Rightarrow> Data \<Rightarrow> world \<Rightarrow> world" where
  "cleanup E d w = snd (os_RemoveAll E (localWorkingDir d) w)"

subsection \<open>process (source lines 100 to 120)\<close>

text \<open>
  \<open>process_body\<close> is the function without its first line; \<open>process\<close> adds the deferred
  \<open>cleanup\<close>, which runs when the body returns or panics and cannot change the result.
\<close>

definition process_body :: "env \<Rightarrow> Data \<Rightarrow> world \<Rightarrow> outcome \<times> world" where
  "process_body E d w =
     (case makeWorkingDir E d w of
        (err, w1) \<Rightarrow>
          if err \<noteq> nil then (Returned (New err ''makeWorkingDir''), w1)
          else (case cloneGithubRepo E d w1 of
            (err, w2) \<Rightarrow>
              if err \<noteq> nil then (Returned (New err ''cloneGithubRepo''), w2)
              else (case writeContentFromStorageToFile E d w2 of
                (Panicked, w3) \<Rightarrow> (Panicked, w3)
              | (Returned err, w3) \<Rightarrow>
                  if err \<noteq> nil then (Returned (New err ''writeContentFromStorageToFile''), w3)
                  else (case makeGitCommit E d w3 of
                    (err, w4) \<Rightarrow>
                      if err \<noteq> nil then (Returned (New err ''makeGitCommit''), w4)
                      else (case pushToRemote E d w4 of
                        (err, w5) \<Rightarrow>
                          if err \<noteq> nil then (Returned (New err ''pushToRemote''), w5)
                          else (Returned nil, w5))))))"

definition process :: "env \<Rightarrow> Data \<Rightarrow> world \<Rightarrow> outcome \<times> world" where
  "process E d w = (case process_body E d w of (r, w1) \<Rightarrow> (r, cleanup E d w1))"

subsection \<open>Run (source lines 60 to 78)\<close>

text \<open>
  \<open>once.Do(f)\<close> calls \<open>f\<close> only the first time. The closure assigns \<open>err\<close>; when it is
  not called, \<open>err\<close> keeps the \<open>nil\<close> that \<open>json.Unmarshal\<close> left.
\<close>

definition once_Do_setup :: "env \<Rightarrow> world \<Rightarrow> error \<times> world" where
  "once_Do_setup E w =
     (if once_done w then (nil, w)
      else (case setup_fn E w of (err, w1) \<Rightarrow> (err, w1\<lparr>once_done := True\<rparr>)))"

definition Run :: "env \<Rightarrow> string \<Rightarrow> world \<Rightarrow> outcome \<times> world" where
  "Run E m_Data w =
     (case json_Unmarshal E m_Data of
        (err, data) \<Rightarrow>
          if err \<noteq> nil then (Returned err, log_Error (fmt_s err) w)
          else (case once_Do_setup E w of
            (err, w1) \<Rightarrow>
              if err \<noteq> nil then (Returned err, log_Error (fmt_s err) w1)
              else (case process E data w1 of
                (Panicked, w2) \<Rightarrow> (Panicked, w2)
              | (Returned err, w2) \<Rightarrow>
                  if err \<noteq> nil then (Returned err, log_Error (fmt_s err) w2)
                  else (Returned err, w2))))"

text \<open>Several messages delivered one after the other to the same process.\<close>

fun Run_all :: "env \<Rightarrow> string list \<Rightarrow> world \<Rightarrow> outcome list \<times> world" where
  "Run_all E [] w = ([], w)"
| "Run_all E (m # ms) w =
     (case Run E m w of
        (r, w1) \<Rightarrow> (case Run_all E ms w1 of (rs, w2) \<Rightarrow> (r # rs, w2)))"

section \<open>Vocabulary of the statements\<close>

text \<open>
  The stage an external call belongs to, by its position in the pipeline: 1 for the
  \<open>os.Mkdir\<close> of \<open>makeWorkingDir\<close>, 2 for \<open>git clone\<close>, 3 for the calls of
  \<open>writeContentFromStorageToFile\<close> (listing, reading, writing, logging), 4 for \<open>git add\<close>
  and \<open>git commit\<close>, 5 for \<open>git push\<close>; 0 for a call that no stage makes.
\<close>

fun stage_no :: "event \<Rightarrow> nat" where
  "stage_no (EvMkdir p) = 1"
| "stage_no (EvExec dir argv) =
     (if take 2 argv = [''git'', ''clone''] then 2
      else if take 2 argv = [''git'', ''add''] \<or> take 2 argv = [''git'', ''commit''] then 4
      else if take 2 argv = [''git'', ''push''] then 5
      else 0)"
| "stage_no (EvNext b p) = 3"
| "stage_no (EvNewReader b object) = 3"
| "stage_no (EvMkdirAll p) = 3"
| "stage_no (EvCreate p) = 3"
| "stage_no (EvCopy object p) = 3"
| "stage_no (EvFileClose p) = 3"
| "stage_no (EvReaderClose object) = 3"
| "stage_no (EvLog line) = 3"
| "stage_no EvNewClient = 0"
| "stage_no (EvRemoveAll p) = 0"

definition stage_order :: "string list" where
  "stage_order =
     [''makeWorkingDir'', ''cloneGithubRepo'', ''writeContentFromStorageToFile'',
      ''makeGitCommit'', ''pushToRemote'']"

text \<open>The objects a reader was opened for, in the order of the calls.\<close>

fun opened :: "event list \<Rightarrow> string list" where
  "opened [] = []"
| "opened (EvNewReader b object # evs) = object # opened evs"
| "opened (ev # evs) = opened evs"

text \<open>The \<open>io.Copy\<close> calls, each as the pair of the object read and the path written, in
  the order of the calls.\<close>

fun copied :: "event list \<Rightarrow> (string \<times> string) list" where
  "copied [] = []"
| "copied (EvCopy object p # evs) = (object, p) # copied evs"
| "copied (ev # evs) = copied evs"

text \<open>
  The transition rule of the specification, as a function of its own: the stages of a
  list run in order; a stage runs only when the one before returned no error; the first
  error ends the run, wrapped with the name of its stage. The third component is the
  list of the stages that ran.
\<close>

type_synonym stage = "world \<Rightarrow> outcome \<times> world"

fun spec_pipeline :: "(string \<times> stage) list \<Rightarrow> world \<Rightarrow> outcome \<times> world \<times> string list" where
  "spec_pipeline [] w = (Returned nil, w, [])"
| "spec_pipeline ((name, f) # rest) w =
     (case f w of
        (Panicked, w1) \<Rightarrow> (Panicked, w1, [name])
      | (Returned e, w1) \<Rightarrow>
          if e \<noteq> nil then (Returned (New e name), w1, [name])
          else (case spec_pipeline rest w1 of (r, w2, names) \<Rightarrow> (r, w2, name # names)))"

definition returning :: "(world \<Rightarrow> error \<times> world) \<Rightarrow> stage" where
  "returning f w = (case f w of (e, w1) \<Rightarrow> (Returned e, w1))"

definition stages :: "env \<Rightarrow> Data \<Rightarrow> (string \<times> stage) list" where
  "stages E d =
     [(''makeWorkingDir'', returning (makeWorkingDir E d)),
      (''cloneGithubRepo'', returning (cloneGithubRepo E d)),
      (''writeContentFromStorageToFile'', writeContentFromStorageToFile E d),
      (''makeGitCommit'', returning (makeGitCommit E d)),
      (''pushToRemote'', returning (pushToRemote E d))]"

text \<open>\<open>is_file w q\<close>: in the world \<open>w\<close> the path \<open>q\<close> is a file.\<close>

definition is_file :: "world \<Rightarrow> string \<Rightarrow> bool" where
  "is_file w q \<longleftrightarrow> (\<exists>c. fs w q = Some (File c))"

text \<open>\<open>grows P w w'\<close>: the trace of \<open>w'\<close> is the trace of \<open>w\<close> and then calls that satisfy
  \<open>P\<close>.\<close>

definition grows :: "(event \<Rightarrow> bool) \<Rightarrow> world \<Rightarrow> world \<Rightarrow> bool" where
  "grows P w w' \<longleftrightarrow> (\<exists>evs. trace w' = trace w @ evs \<and> list_all P evs)"

section \<open>A sample job and sample environments\<close>

text \<open>
  The job of the specification's example, and an environment in which every call goes
  through: every message decodes to that job, every command exits with status 0, the
  bucket lists four names. \<open>example_Dir\<close> is \<open>path.Dir\<close> on a clean relative path: what
  stands before the last slash, or a dot.
\<close>

definition job1 :: Data where
  "job1 = \<lparr>UserID = ''u1'', GithubToken = ''tok'', GithubUsername = ''alice'',
           RepoName = ''notes'', ProjectName = ''p1'', FileName = ''a.md'',
           StorageFilePath = ''u1/a.md'', CommitMessage = ''update''\<rparr>"

definition example_Dir :: "string \<Rightarrow> string" where
  "example_Dir s =
     (let r = dropWhile (\<lambda>c. c \<noteq> CHR ''/'') (rev s)
      in if r = [] then ''.'' else rev (tl r))"

definition env1 :: env where
  "env1 =
     \<lparr>bucketName = ''ide'', committerEmail = ''bot@example.com'', committerName = ''bot'',
      json_Unmarshal = (\<lambda>m. (nil, job1)),
      path_Dir = example_Dir,
      fmt_q = quoted,
      newClient_fault = (\<lambda>w. nil),
      run_command = (\<lambda>w dir argv. (Exited 0, [], [], fs w)),
      mkdir_fault = (\<lambda>w p. nil),
      removeAll_fault = (\<lambda>w p. (nil, \<lambda>q. False)),
      bucket_keys = (\<lambda>w b. [''u1/'', ''u1/a.md'', ''u1/docs/b.md'', ''u2/c.md'']),
      list_fault = (\<lambda>w b p. None),
      newReader_fault = (\<lambda>w b object. nil),
      mkdirAll_fault = (\<lambda>w p. nil),
      create_fault = (\<lambda>w p. nil),
      copy_result = (\<lambda>w object p. (''data of '' @ object, nil))\<rparr>"

text \<open>A fresh process, and a process whose \<open>setup\<close> has run with success.\<close>

definition world1 :: world where
  "world1 = \<lparr>fs = [''/tmp'' \<mapsto> Dir], trace = [], once_done = False, storageClient = None\<rparr>"

definition world_ready :: world where
  "world_ready = world1\<lparr>once_done := True, storageClient := Some Client\<rparr>"

text \<open>A process in which the directory of user \<open>u1\<close> is there already.\<close>

definition world_busy :: world where
  "world_busy = world_ready\<lparr>fs := (fs world_ready)(''/tmp/u1'' \<mapsto> Dir)\<rparr>"

text \<open>A process in which that directory holds a file left by an earlier job.\<close>

definition world_leftover :: world where
  "world_leftover =
     world_ready\<lparr>fs := (fs world_ready)(''/tmp/u1'' \<mapsto> Dir,
                                          ''/tmp/u1/leftover'' \<mapsto> File ''kept'')\<rparr>"

text \<open>An environment in which \<open>git clone\<close> exits with status 128.\<close>

definition env_clone_fails :: env where
  "env_clone_fails =
     env1\<lparr>run_command := (\<lambda>w dir argv.
        if take 2 argv = [''git'', ''clone'']
        then (Exited 128, ''Cloning'', ''fatal: repository not found'', fs w)
        else (Exited 0, [], [], fs w))\<rparr>"

text \<open>An environment in which \<open>os.RemoveAll\<close> fails and the directory itself stays.\<close>

definition env_stuck :: env where
  "env_stuck =
     env1\<lparr>removeAll_fault := (\<lambda>w p. (PathError ''unlinkat'' p ''permission denied'' 13, \<lambda>q. q = p))\<rparr>"

text \<open>The job a message without any field decodes to, and an environment in which every
  message decodes to it.\<close>

definition job_empty :: Data where
  "job_empty = \<lparr>UserID = [], GithubToken = [], GithubUsername = [], RepoName = [],
                ProjectName = [], FileName = [], StorageFilePath = [], CommitMessage = []\<rparr>"

definition env_empty :: env where
  "env_empty = env1\<lparr>json_Unmarshal := (\<lambda>m. (nil, job_empty))\<rparr>"

text \<open>An environment in which the copy of the object \<open>u1/docs/b.md\<close> breaks after two
  bytes, and one in which the listing breaks after two names.\<close>

definition env_copy_fails :: env where
  "env_copy_fails =
     env1\<lparr>copy_result := (\<lambda>w object p.
        if object = ''u1/docs/b.md'' then (''da'', LibError ''unexpected EOF'' (Some ''{}''))
        else (''data of '' @ object, nil))\<rparr>"

definition env_list_fails :: env where
  "env_list_fails =
     env1\<lparr>list_fault := (\<lambda>w b p. Some (2, LibError ''context deadline exceeded'' (Some ''{}'')))\<rparr>"

text \<open>An environment in which \<open>storage.NewClient\<close> fails, and one in which \<open>git config\<close>
  exits with status 255.\<close>

definition env_init_fails :: env where
  "env_init_fails =
     env1\<lparr>newClient_fault := (\<lambda>w. LibError ''dialing: could not find default credentials'' (Some ''{}''))\<rparr>"

definition env_config_fails :: env where
  "env_config_fails =
     env1\<lparr>run_command := (\<lambda>w dir argv.
        if take 2 argv = [''git'', ''config'']
        then (Exited 255, [], ''error: could not lock config file'', fs w)
        else (Exited 0, [], [], fs w))\<rparr>"

section \<open>Lemmas on the trace\<close>

lemma grows_refl: "grows P w w"
  by (simp add: grows_def)

lemma grows_trans: "grows P w w1 \<Longrightarrow> grows P w1 w2 \<Longrightarrow> grows P w w2"
  by (auto simp: grows_def)

lemma grows_emit: "P e \<Longrightarrow> grows P w (emit e w)"
  by (simp add: grows_def emit_def)

lemma grows_mono: "grows P w w' \<Longrightarrow> (\<And>e. P e \<Longrightarrow> Q e) \<Longrightarrow> grows Q w w'"
  by (auto simp: grows_def list_all_iff)

lemma tr_emit [simp]: "trace (emit e w) = trace w @ [e]"
  by (simp add: emit_def)

lemma fs_emit [simp]: "fs (emit e w) = fs w"
  by (simp add: emit_def)

lemma tr_Mkdir: "os_Mkdir E p w = (e, w') \<Longrightarrow> trace w' = trace w @ [EvMkdir p]"
  by (auto simp: os_Mkdir_def Let_def split: if_splits)

lemma tr_MkdirAll: "os_MkdirAll E p w = (e, w') \<Longrightarrow> trace w' = trace w @ [EvMkdirAll p]"
  by (auto simp: os_MkdirAll_def Let_def split: if_splits option.splits node.splits)

lemma tr_Create: "os_Create E p w = (e, w') \<Longrightarrow> trace w' = trace w @ [EvCreate p]"
  by (auto simp: os_Create_def Let_def split: if_splits)

lemma tr_Copy: "io_Copy E object p w = (e, w') \<Longrightarrow> trace w' = trace w @ [EvCopy object p]"
  by (auto simp: io_Copy_def split: prod.splits)

lemma tr_Output: "cmd_Output E dir argv w = (r, w') \<Longrightarrow> trace w' = trace w @ [EvExec dir argv]"
  by (auto simp: cmd_Output_def split: prod.splits)

lemma tr_NewReader:
  "storage_NewReader E object w = (e, w') \<Longrightarrow>
   trace w' = trace w @ [EvNewReader (bucketName E) object]"
  by (auto simp: storage_NewReader_def)

lemma tr_RemoveAll: "os_RemoveAll E p w = (e, w') \<Longrightarrow> trace w' = trace w @ [EvRemoveAll p]"
  by (auto simp: os_RemoveAll_def split: prod.splits)

lemma grows_writeContentFromStorageToFile_one:
  "writeContentFromStorageToFile_one E d object w = (e, w') \<Longrightarrow> grows (\<lambda>ev. stage_no ev = 3) w w'"
  unfolding writeContentFromStorageToFile_one_def Reader_Close_def File_Close_def grows_def
  by (auto split: prod.splits if_splits dest!: tr_NewReader tr_MkdirAll tr_Create tr_Copy)

lemma grows_copy_loop:
  "copy_loop E d files w = (e, w') \<Longrightarrow> grows (\<lambda>ev. stage_no ev = 3) w w'"
proof (induction files arbitrary: w)
  case Nil
  then show ?case by (simp add: grows_refl)
next
  case (Cons f files)
  then show ?case
    by (auto split: prod.splits if_splits dest!: grows_writeContentFromStorageToFile_one intro: grows_trans)
qed

lemma grows_list_loop:
  "list_loop E it files w = (e, files', w') \<Longrightarrow> grows (\<lambda>ev. stage_no ev = 3) w w'"
proof (induction E it files w rule: list_loop.induct)
  case (1 E b p e files w)
  then show ?case
    by (auto simp: Let_def grows_def log_Error_def split: if_splits)
next
  case (2 E b p name rest e files w)
  have "grows (\<lambda>ev. stage_no ev = 3) w (emit (EvNext b p) w)"
    by (simp add: grows_emit)
  with 2 show ?case
    by (auto intro: grows_trans)
qed

lemma grows_makeWorkingDir:
  "makeWorkingDir E d w = (e, w') \<Longrightarrow> grows (\<lambda>ev. stage_no ev = 1) w w'"
  by (auto simp: makeWorkingDir_def grows_def dest!: tr_Mkdir)

lemma grows_cloneGithubRepo:
  "cloneGithubRepo E d w = (e, w') \<Longrightarrow> grows (\<lambda>ev. stage_no ev = 2) w w'"
  by (auto simp: cloneGithubRepo_def grows_def split: prod.splits if_splits dest!: tr_Output)

lemma grows_writeContentFromStorageToFile:
  "writeContentFromStorageToFile E d w = (r, w') \<Longrightarrow> grows (\<lambda>ev. stage_no ev = 3) w w'"
  by (auto simp: writeContentFromStorageToFile_def grows_refl
           split: option.splits prod.splits if_splits
           dest!: grows_list_loop grows_copy_loop intro: grows_trans)

lemma grows_makeGitCommit:
  "makeGitCommit E d w = (e, w') \<Longrightarrow> grows (\<lambda>ev. stage_no ev = 4) w w'"
  by (auto simp: makeGitCommit_def grows_def split: prod.splits if_splits dest!: tr_Output)

lemma grows_pushToRemote:
  "pushToRemote E d w = (e, w') \<Longrightarrow> grows (\<lambda>ev. stage_no ev = 5) w w'"
  by (auto simp: pushToRemote_def grows_def split: prod.splits if_splits dest!: tr_Output)

section \<open>Lemmas on the pipeline\<close>

lemma spec_pipeline_names:
  "spec_pipeline sts w = (r, w', rn) \<Longrightarrow>
     prefix rn (map fst sts) \<and> (sts \<noteq> [] \<longrightarrow> rn \<noteq> [])
     \<and> (r = Returned nil \<longrightarrow> rn = map fst sts)
     \<and> (\<forall>e. r = Returned e \<longrightarrow> e \<noteq> nil \<longrightarrow> (\<exists>c. c \<noteq> nil \<and> e = New c (last rn)))"
proof (induction sts arbitrary: w r w' rn)
  case Nil
  then show ?case by auto
next
  case (Cons st sts)
  obtain name f where st: "st = (name, f)" by (cases st)
  obtain r1 w1 where f: "f w = (r1, w1)" by (cases "f w")
  show ?case
  proof (cases r1)
    case Panicked
    with Cons.prems st f show ?thesis by auto
  next
    case (Returned e1)
    show ?thesis
    proof (cases "e1 = nil")
      case False
      with Cons.prems st f Returned show ?thesis by (auto simp: New_def)
    next
      case True
      obtain r2 w2 rn2 where rest: "spec_pipeline sts w1 = (r2, w2, rn2)"
        by (cases "spec_pipeline sts w1")
      with Cons.prems st f Returned True have eq: "r = r2" "w' = w2" "rn = name # rn2"
        by auto
      from Cons.IH [OF rest] eq st rest show ?thesis
        by (cases sts) (auto simp: New_def)
    qed
  qed
qed

lemma spec_pipeline_trace:
  assumes "spec_pipeline sts w = (r, w', rn)"
      and "\<And>i w r w'. i < length sts \<Longrightarrow> snd (sts ! i) w = (r, w') \<Longrightarrow>
             grows (\<lambda>ev. stage_no ev = Suc (k + i)) w w'"
  shows "\<exists>evs. trace w' = trace w @ evs \<and> sorted (map stage_no evs)
           \<and> (\<forall>ev\<in>set evs. k < stage_no ev \<and> stage_no ev \<le> k + length rn)"
  using assms
proof (induction sts arbitrary: w r w' rn k)
  case Nil
  then show ?case by simp
next
  case (Cons st sts)
  obtain name f where st: "st = (name, f)" by (cases st)
  obtain r1 w1 where f: "f w = (r1, w1)" by (cases "f w")
  from Cons.prems(2) [of 0 w r1 w1] st f
  have "grows (\<lambda>ev. stage_no ev = Suc k) w w1" by simp
  then obtain evs1 where evs1: "trace w1 = trace w @ evs1" "\<forall>ev\<in>set evs1. stage_no ev = Suc k"
    by (auto simp: grows_def list_all_iff)
  then have sorted1: "sorted (map stage_no evs1)"
    by (auto simp: sorted_wrt_iff_nth_less sorted_map)
  have stop: "r = r1' \<Longrightarrow> w' = w1 \<Longrightarrow> rn = [name] \<Longrightarrow> ?case" for r1'
    using evs1 sorted1 by (intro exI [of _ evs1]) auto
  show ?case
  proof (cases r1)
    case Panicked
    with Cons.prems(1) st f show ?thesis by (intro stop) auto
  next
    case (Returned e1)
    show ?thesis
    proof (cases "e1 = nil")
      case False
      with Cons.prems(1) st f Returned show ?thesis by (intro stop) auto
    next
      case True
      obtain r2 w2 rn2 where rest: "spec_pipeline sts w1 = (r2, w2, rn2)"
        by (cases "spec_pipeline sts w1")
      with Cons.prems(1) st f Returned True have eq: "r = r2" "w' = w2" "rn = name # rn2"
        by auto
      have "\<exists>evs. trace w2 = trace w1 @ evs \<and> sorted (map stage_no evs)
              \<and> (\<forall>ev\<in>set evs. Suc k < stage_no ev \<and> stage_no ev \<le> Suc k + length rn2)"
      proof (rule Cons.IH [OF rest])
        fix i w r w'
        assume "i < length sts" "snd (sts ! i) w = (r, w')"
        with Cons.prems(2) [of "Suc i" w r w']
        show "grows (\<lambda>ev. stage_no ev = Suc (Suc k + i)) w w'" by simp
      qed
      then obtain evs2 where evs2: "trace w2 = trace w1 @ evs2" "sorted (map stage_no evs2)"
          "\<forall>ev\<in>set evs2. Suc k < stage_no ev \<and> stage_no ev \<le> Suc k + length rn2"
        by blast
      show ?thesis
        using evs1 evs2 sorted1 eq
        by (intro exI [of _ "evs1 @ evs2"]) (auto simp: sorted_append)
    qed
  qed
qed

lemma process_body_refines:
  "process_body E d w = (case spec_pipeline (stages E d) w of (r, w', rn) \<Rightarrow> (r, w'))"
  by (simp add: process_body_def stages_def returning_def split: prod.splits outcome.splits)

lemma stages_grow:
  assumes "i < length (stages E d)" "snd (stages E d ! i) w = (r, w')"
  shows "grows (\<lambda>ev. stage_no ev = Suc (0 + i)) w w'"
proof -
  from assms(1) have "i < 5"
    by (simp add: stages_def)
  then consider "i = 0" | "i = 1" | "i = 2" | "i = 3" | "i = 4"
    by arith
  then show ?thesis
  proof cases
    case 1
    with assms(2) obtain e where "makeWorkingDir E d w = (e, w')"
      by (auto simp: stages_def returning_def split: prod.splits)
    from grows_makeWorkingDir [OF this] 1 show ?thesis by simp
  next
    case 2
    with assms(2) obtain e where "cloneGithubRepo E d w = (e, w')"
      by (auto simp: stages_def returning_def split: prod.splits)
    from grows_cloneGithubRepo [OF this] 2 show ?thesis by (simp add: eval_nat_numeral)
  next
    case 3
    with assms(2) have "writeContentFromStorageToFile E d w = (r, w')"
      by (simp add: stages_def)
    from grows_writeContentFromStorageToFile [OF this] 3 show ?thesis
      by (simp add: eval_nat_numeral)
  next
    case 4
    with assms(2) obtain e where "makeGitCommit E d w = (e, w')"
      by (auto simp: stages_def returning_def split: prod.splits)
    from grows_makeGitCommit [OF this] 4 show ?thesis by (simp add: eval_nat_numeral)
  next
    case 5
    with assms(2) obtain e where "pushToRemote E d w = (e, w')"
      by (auto simp: stages_def returning_def split: prod.splits)
    from grows_pushToRemote [OF this] 5 show ?thesis by (simp add: eval_nat_numeral)
  qed
qed

lemma grows_extends: "grows P w w' \<Longrightarrow> \<exists>evs. trace w' = trace w @ evs"
  by (auto simp: grows_def)

lemma list_loop_first:
  "list_loop E (ObjectIterator b p names e) files w = (err, files', w') \<Longrightarrow>
   \<exists>evs. trace w' = trace w @ EvNext b p # evs"
proof (cases names)
  case Nil
  assume "list_loop E (ObjectIterator b p names e) files w = (err, files', w')"
  with Nil show ?thesis
    by (auto simp: Let_def log_Error_def split: if_splits)
next
  case (Cons name rest)
  assume "list_loop E (ObjectIterator b p names e) files w = (err, files', w')"
  with Cons have "list_loop E (ObjectIterator b p rest e)
       (if \<not> HasSuffix name ''/'' then files @ [name] else files) (emit (EvNext b p) w) = (err, files', w')"
    by simp
  from grows_extends [OF grows_list_loop [OF this]] show ?thesis
    by auto
qed

lemma writeContent_first:
  assumes "storageClient w \<noteq> None"
  shows "\<exists>evs. trace (snd (writeContentFromStorageToFile E d w)) =
           trace w @ EvNext (bucketName E) (UserID d) # evs"
proof -
  obtain names e where it: "bucket_Objects E (UserID d) w = ObjectIterator (bucketName E) (UserID d) names e"
    by (cases "list_fault E w (bucketName E) (UserID d)") (auto simp: bucket_Objects_def Let_def)
  obtain err files w1 where ll: "list_loop E (ObjectIterator (bucketName E) (UserID d) names e) [] w = (err, files, w1)"
    by (metis prod_cases3)
  from list_loop_first [OF ll] obtain evs where evs: "trace w1 = trace w @ EvNext (bucketName E) (UserID d) # evs"
    by blast
  show ?thesis
  proof (cases "err = nil")
    case False
    with assms it ll evs show ?thesis
      by (auto simp: writeContentFromStorageToFile_def)
  next
    case True
    obtain e2 w2 where cl: "copy_loop E d files w1 = (e2, w2)"
      by (cases "copy_loop E d files w1")
    from grows_extends [OF grows_copy_loop [OF cl]] obtain evs2 where "trace w2 = trace w1 @ evs2"
      by blast
    with True assms it ll evs cl show ?thesis
      by (auto simp: writeContentFromStorageToFile_def)
  qed
qed

lemma tr_cleanup: "trace (cleanup E d w) = trace w @ [EvRemoveAll (localWorkingDir d)]"
  by (cases "os_RemoveAll E (localWorkingDir d) w") (auto simp: cleanup_def dest: tr_RemoveAll)

lemma tr_process:
  "trace (snd (process E d w)) = trace (snd (process_body E d w)) @ [EvRemoveAll (localWorkingDir d)]"
  by (cases "process_body E d w") (simp add: process_def tr_cleanup)

lemma process_body_first:
  "\<exists>evs. trace (snd (process_body E d w)) = trace w @ EvMkdir (localWorkingDir d) # evs"
proof -
  obtain e1 w1 where mk: "makeWorkingDir E d w = (e1, w1)"
    by (cases "makeWorkingDir E d w")
  then have t1: "trace w1 = trace w @ [EvMkdir (localWorkingDir d)]"
    by (auto simp: makeWorkingDir_def dest: tr_Mkdir)
  obtain r w5 rn where sp: "spec_pipeline (tl (stages E d)) w1 = (r, w5, rn)"
    by (metis prod_cases3)
  have "\<exists>evs. trace w5 = trace w1 @ evs \<and> sorted (map stage_no evs)
           \<and> (\<forall>ev\<in>set evs. 1 < stage_no ev \<and> stage_no ev \<le> 1 + length rn)"
  proof (rule spec_pipeline_trace [OF sp])
    fix i w r w'
    assume "i < length (tl (stages E d))" "snd (tl (stages E d) ! i) w = (r, w')"
    then have "Suc i < length (stages E d)" "snd (stages E d ! Suc i) w = (r, w')"
      by (simp_all add: stages_def)
    from stages_grow [OF this] show "grows (\<lambda>ev. stage_no ev = Suc (1 + i)) w w'"
      by simp
  qed
  then obtain evs where evs: "trace w5 = trace w1 @ evs"
    by blast
  show ?thesis
  proof (cases "e1 = nil")
    case False
    with mk t1 show ?thesis
      by (simp add: process_body_def)
  next
    case True
    with mk sp have "snd (process_body E d w) = w5"
      by (simp add: process_body_refines stages_def returning_def)
    with evs t1 show ?thesis
      by simp
  qed
qed

lemma Run_after_setup:
  assumes "json_Unmarshal E m = (nil, d)" "fst (once_Do_setup E w) = nil"
  shows "fst (Run E m w) = fst (process E d (snd (once_Do_setup E w)))"
    and "\<exists>evs. trace (snd (Run E m w)) = trace (snd (process E d (snd (once_Do_setup E w)))) @ evs"
  using assms
  by (auto simp: Run_def log_Error_def split: prod.splits outcome.splits)

lemma prims_rm [simp]:
  "os_Mkdir (E\<lparr>removeAll_fault := f\<rparr>) p w = os_Mkdir E p w"
  "os_MkdirAll (E\<lparr>removeAll_fault := f\<rparr>) p w = os_MkdirAll E p w"
  "os_Create (E\<lparr>removeAll_fault := f\<rparr>) p w = os_Create E p w"
  "io_Copy (E\<lparr>removeAll_fault := f\<rparr>) object p w = io_Copy E object p w"
  "storage_NewReader (E\<lparr>removeAll_fault := f\<rparr>) object w = storage_NewReader E object w"
  "cmd_Output (E\<lparr>removeAll_fault := f\<rparr>) dir argv w = cmd_Output E dir argv w"
  "bucket_Objects (E\<lparr>removeAll_fault := f\<rparr>) prfx w = bucket_Objects E prfx w"
  by (auto simp: os_Mkdir_def os_MkdirAll_def os_Create_def io_Copy_def
        storage_NewReader_def cmd_Output_def bucket_Objects_def Let_def
        split: option.splits node.splits prod.splits)

lemma writeContentFromStorageToFile_one_rm [simp]:
  "writeContentFromStorageToFile_one (E\<lparr>removeAll_fault := f\<rparr>) d object w = writeContentFromStorageToFile_one E d object w"
  by (simp add: writeContentFromStorageToFile_one_def cong: if_cong)

lemma copy_loop_rm [simp]:
  "copy_loop (E\<lparr>removeAll_fault := f\<rparr>) d files w = copy_loop E d files w"
  by (induction files arbitrary: w) (simp_all cong: if_cong)

lemma list_loop_rm [simp]:
  "list_loop (E\<lparr>removeAll_fault := f\<rparr>) it files w = list_loop E it files w"
  by (induction E it files w rule: list_loop.induct) (simp_all add: Let_def cong: if_cong)

lemma process_body_rm:
  "process_body (E\<lparr>removeAll_fault := f\<rparr>) d w = process_body E d w"
  by (simp add: process_body_def makeWorkingDir_def cloneGithubRepo_def
        writeContentFromStorageToFile_def makeGitCommit_def pushToRemote_def
        cong: if_cong option.case_cong outcome.case_cong)

lemma process_body_no_RemoveAll:
  "\<exists>evs. trace (snd (process_body E d w)) = trace w @ evs \<and> (\<forall>p. EvRemoveAll p \<notin> set evs)"
proof -
  obtain r w1 rn where sp: "spec_pipeline (stages E d) w = (r, w1, rn)"
    by (metis prod_cases3)
  have "\<exists>evs. trace w1 = trace w @ evs \<and> sorted (map stage_no evs)
           \<and> (\<forall>ev\<in>set evs. 0 < stage_no ev \<and> stage_no ev \<le> 0 + length rn)"
    by (rule spec_pipeline_trace [OF sp]) (rule stages_grow)
  then obtain evs where "trace w1 = trace w @ evs" "\<forall>ev\<in>set evs. 0 < stage_no ev"
    by blast
  moreover from sp have "snd (process_body E d w) = w1"
    by (simp add: process_body_refines)
  ultimately show ?thesis
    by (intro exI [of _ evs]) auto
qed

section \<open>Lemmas on the two loops of the materialization\<close>

lemma opened_append [simp]: "opened (xs @ ys) = opened xs @ opened ys"
  by (induction xs rule: opened.induct) simp_all

lemma opened_replicate_Next [simp]: "opened (replicate n (EvNext b p)) = []"
  by (induction n) simp_all

lemma emit_trace_update [simp]: "(emit e w)\<lparr>trace := t\<rparr> = w\<lparr>trace := t\<rparr>"
  by (simp add: emit_def)

lemma list_loop_result:
  "list_loop E (ObjectIterator b p names fin) files w =
     (let w1 = w\<lparr>trace := trace w @ replicate (Suc (length names)) (EvNext b p)\<rparr>;
          files1 = files @ filter (\<lambda>n. \<not> HasSuffix n ''/'') names
      in if fin = nil \<or> fin = iterator_Done then (nil, files1, w1)
         else (fin, files1,
               log_Error (''Bucket('' @ fmt_q E (bucketName E) @ '').Objects: '' @ fmt_s fin) w1))"
proof (induction names arbitrary: files w)
  case Nil
  then show ?case
    by (simp add: Let_def emit_def)
next
  case (Cons name rest)
  show ?case
    by (simp add: Cons.IH Let_def)
qed

lemma copied_append [simp]: "copied (xs @ ys) = copied xs @ copied ys"
  by (induction xs rule: copied.induct) simp_all

lemma writeContentFromStorageToFile_one_opened:
  "writeContentFromStorageToFile_one E d object w = (e, w') \<Longrightarrow>
   \<exists>evs. trace w' = trace w @ evs \<and> (\<forall>b p. EvNext b p \<notin> set evs) \<and> opened evs = [object]
      \<and> prefix (copied evs) [(object, ''/tmp/'' @ object)]
      \<and> (e = nil \<longrightarrow> copied evs = [(object, ''/tmp/'' @ object)])"
  unfolding writeContentFromStorageToFile_one_def Reader_Close_def File_Close_def
  by (auto split: prod.splits if_splits dest!: tr_NewReader tr_MkdirAll tr_Create tr_Copy)

lemma copy_loop_opened:
  "copy_loop E d files w = (e, w') \<Longrightarrow>
   \<exists>evs. trace w' = trace w @ evs \<and> (\<forall>b p. EvNext b p \<notin> set evs)
      \<and> prefix (opened evs) files \<and> (e = nil \<longrightarrow> opened evs = files)
      \<and> prefix (copied evs) (map (\<lambda>f. (f, ''/tmp/'' @ f)) files)
      \<and> (e = nil \<longrightarrow> copied evs = map (\<lambda>f. (f, ''/tmp/'' @ f)) files)"
proof (induction files arbitrary: w)
  case Nil
  then show ?case by simp
next
  case (Cons f files)
  obtain e1 w1 where wo: "writeContentFromStorageToFile_one E d f w = (e1, w1)"
    by (cases "writeContentFromStorageToFile_one E d f w")
  from writeContentFromStorageToFile_one_opened [OF wo] obtain evs1 where
    1: "trace w1 = trace w @ evs1" "\<forall>b p. EvNext b p \<notin> set evs1" "opened evs1 = [f]"
       "prefix (copied evs1) [(f, ''/tmp/'' @ f)]"
       "e1 = nil \<longrightarrow> copied evs1 = [(f, ''/tmp/'' @ f)]"
    by blast
  show ?case
  proof (cases "e1 = nil")
    case False
    with Cons.prems wo have "e = e1" "w' = w1" by auto
    moreover have "prefix [(f, ''/tmp/'' @ f)] ((f, ''/tmp/'' @ f) # map (\<lambda>f. (f, ''/tmp/'' @ f)) files)"
      by simp
    with 1(4) have "prefix (copied evs1) ((f, ''/tmp/'' @ f) # map (\<lambda>f. (f, ''/tmp/'' @ f)) files)"
      by (rule prefix_order.trans)
    ultimately show ?thesis
      using 1 False by (intro exI [of _ evs1]) auto
  next
    case True
    with Cons.prems wo have "copy_loop E d files w1 = (e, w')" by simp
    from Cons.IH [OF this] obtain evs2 where
      2: "trace w' = trace w1 @ evs2" "\<forall>b p. EvNext b p \<notin> set evs2"
         "prefix (opened evs2) files" "e = nil \<longrightarrow> opened evs2 = files"
         "prefix (copied evs2) (map (\<lambda>f. (f, ''/tmp/'' @ f)) files)"
         "e = nil \<longrightarrow> copied evs2 = map (\<lambda>f. (f, ''/tmp/'' @ f)) files"
      by blast
    with 1 True show ?thesis
      by (intro exI [of _ "evs1 @ evs2"]) auto
  qed
qed

lemma writeContentFromStorageToFile_one_keeps:
  "writeContentFromStorageToFile_one E d object w = (e, w') \<Longrightarrow> is_file w q \<Longrightarrow> is_file w' q"
  unfolding writeContentFromStorageToFile_one_def Reader_Close_def File_Close_def storage_NewReader_def
    os_MkdirAll_def os_Create_def io_Copy_def is_file_def Let_def
  by (auto split: prod.splits if_splits option.splits node.splits)

lemma writeContentFromStorageToFile_one_creates:
  "writeContentFromStorageToFile_one E d object w = (nil, w') \<Longrightarrow> is_file w' (''/tmp/'' @ object)"
  unfolding writeContentFromStorageToFile_one_def Reader_Close_def File_Close_def storage_NewReader_def
    os_MkdirAll_def os_Create_def io_Copy_def is_file_def Let_def
  by (auto split: prod.splits if_splits option.splits node.splits)

lemma copy_loop_keeps:
  "copy_loop E d files w = (e, w') \<Longrightarrow> is_file w q \<Longrightarrow> is_file w' q"
proof (induction files arbitrary: w)
  case Nil
  then show ?case by simp
next
  case (Cons f files)
  then show ?case
    by (auto split: prod.splits if_splits dest: writeContentFromStorageToFile_one_keeps)
qed

lemma copy_loop_creates:
  "copy_loop E d files w = (nil, w') \<Longrightarrow> f \<in> set files \<Longrightarrow> is_file w' (''/tmp/'' @ f)"
proof (induction files arbitrary: w)
  case Nil
  then show ?case by simp
next
  case (Cons g files)
  obtain w1 where wo: "writeContentFromStorageToFile_one E d g w = (nil, w1)" and rest: "copy_loop E d files w1 = (nil, w')"
    using Cons.prems(1) by (auto split: prod.splits if_splits)
  show ?case
  proof (cases "f = g")
    case True
    from writeContentFromStorageToFile_one_creates [OF wo] copy_loop_keeps [OF rest] True show ?thesis
      by simp
  next
    case False
    with Cons.prems(2) have "f \<in> set files" by simp
    from Cons.IH [OF rest this] show ?thesis .
  qed
qed

lemma copy_loop_append:
  "copy_loop E d (xs @ ys) w =
     (case copy_loop E d xs w of (e, w1) \<Rightarrow> if e \<noteq> nil then (e, w1) else copy_loop E d ys w1)"
  by (induction xs arbitrary: w) (auto split: prod.splits)

lemma copy_loop_fails_at:
  assumes k: "k < length files"
      and ok: "copy_loop E d (take k files) w = (nil, w1)"
      and bad: "writeContentFromStorageToFile_one E d (files ! k) w1 = (e, w2)" "e \<noteq> nil"
  shows "copy_loop E d files w = (e, w2)"
    and "\<forall>i<k. is_file w2 (''/tmp/'' @ files ! i)"
proof -
  from k have split: "files = take k files @ files ! k # drop (Suc k) files"
    by (simp add: id_take_nth_drop)
  have "copy_loop E d (take k files @ files ! k # drop (Suc k) files) w = (e, w2)"
    using ok bad by (simp add: copy_loop_append)
  with split show "copy_loop E d files w = (e, w2)"
    by simp
  show "\<forall>i<k. is_file w2 (''/tmp/'' @ files ! i)"
  proof (intro allI impI)
    fix i assume i: "i < k"
    from i k have "i < length (take k files)" "take k files ! i = files ! i"
      by simp_all
    then have "files ! i \<in> set (take k files)"
      by (metis nth_mem)
    from copy_loop_creates [OF ok this] have "is_file w1 (''/tmp/'' @ files ! i)" .
    from writeContentFromStorageToFile_one_keeps [OF bad(1) this] show "is_file w2 (''/tmp/'' @ files ! i)" .
  qed
qed

lemma stage3_no_Exec: "stage_no (EvExec dir argv) \<noteq> 3"
  by simp

section \<open>Lemmas on a directory that is there already\<close>




section \<open>Evaluation of the sample runs\<close>

lemmas prog_defs = process_def process_body_def makeWorkingDir_def cloneGithubRepo_def
  writeContentFromStorageToFile_def makeGitCommit_def pushToRemote_def cleanup_def
  writeContentFromStorageToFile_one_def os_Mkdir_def os_MkdirAll_def os_Create_def io_Copy_def os_RemoveAll_def
  cmd_Output_def storage_NewReader_def bucket_Objects_def Reader_Close_def File_Close_def
  emit_def log_Error_def localWorkingDir_def localRepoPath_def localRelativeFilePath_def
  clone_url_def HasSuffix_def in_subtree_def New_def Let_def example_Dir_def

lemmas sample_defs = env1_def job1_def world_ready_def world1_def world_busy_def
  world_leftover_def
  env_clone_fails_def env_stuck_def env_empty_def job_empty_def env_copy_fails_def
  env_list_fails_def env_init_fails_def env_config_fails_def

lemmas run_defs = Run_def once_Do_setup_def setup_fn_def storage_NewClient_def quoted_def dq_def

lemma run_ok: "fst (process env1 job1 world_ready) = Returned nil"
  by (simp add: prog_defs sample_defs)

lemma run_clone_fails:
  "fst (process env_clone_fails job1 world_ready) =
     Returned (New (New (ExitError ''exit status 128'' ''fatal: repository not found'') ''Cloning'')
                 ''cloneGithubRepo'')"
  by (simp add: prog_defs sample_defs digits.simps)

lemma run_materialize_ok: "fst (writeContentFromStorageToFile env1 job1 world_ready) = Returned nil"
  by (simp add: prog_defs sample_defs suffix_to_prefix)

section \<open>Claims\<close>

text \<open>
  C1, as amended. For every job, environment and world: the calls \<open>process\<close> makes end
  with exactly one \<open>os.RemoveAll\<close> of \<open>/tmp/<user_id>\<close>, and no other \<open>os.RemoveAll\<close> is
  among them (cleanup runs once, last, whether the stages returned success, an error or
  panicked); the outcome of \<open>process\<close> is the outcome of its stages and is the same
  whatever \<open>os.RemoveAll\<close> answers; and when that \<open>os.RemoveAll\<close> returns no error, the
  directory \<open>/tmp/<user_id>\<close> does not exist afterwards.
\<close>

theorem C1_cleanup:
  "(\<exists>evs. trace (snd (process E d w)) = trace w @ evs @ [EvRemoveAll (localWorkingDir d)]
          \<and> (\<forall>p. EvRemoveAll p \<notin> set evs))
   \<and> fst (process E d w) = fst (process_body E d w)
   \<and> fst (process (E\<lparr>removeAll_fault := f\<rparr>) d w) = fst (process E d w)
   \<and> (fst (os_RemoveAll E (localWorkingDir d) (snd (process_body E d w))) = nil \<longrightarrow>
        fs (snd (process E d w)) (localWorkingDir d) = None)"
proof -
  have a: "\<exists>evs. trace (snd (process E d w)) = trace w @ evs @ [EvRemoveAll (localWorkingDir d)]
          \<and> (\<forall>p. EvRemoveAll p \<notin> set evs)"
    using process_body_no_RemoveAll [of E d w] by (auto simp: tr_process)
  have b: "fst (process E d w) = fst (process_body E d w)" for E
    by (cases "process_body E d w") (simp add: process_def)
  have c: "fst (process (E\<lparr>removeAll_fault := f\<rparr>) d w) = fst (process E d w)"
    by (simp add: b process_body_rm)
  have e: "fst (os_RemoveAll E (localWorkingDir d) (snd (process_body E d w))) = nil \<longrightarrow>
        fs (snd (process E d w)) (localWorkingDir d) = None"
    by (cases "process_body E d w")
       (auto simp: process_def cleanup_def os_RemoveAll_def in_subtree_def split: prod.splits)
  from a b c e show ?thesis
    by blast
qed

text \<open>
  C1 as stated fails: where \<open>os.RemoveAll\<close> fails (here with a permission error that
  leaves the directory), \<open>process\<close> returns success and the directory still exists.
\<close>

theorem C1_counterexample:
  "fst (process env_stuck job1 world_ready) = Returned nil
   \<and> fs (snd (process env_stuck job1 world_ready)) (localWorkingDir job1) = Some Dir"
  by (simp add: prog_defs sample_defs PathError_def)

theorem C1_witness:
  "fst (os_RemoveAll env1 (localWorkingDir job1) (snd (process_body env1 job1 world_ready))) = nil
   \<and> fs (snd (process env1 job1 world_ready)) (localWorkingDir job1) = None
   \<and> fst (process env_stuck job1 world_ready) = fst (process env1 job1 world_ready)
   \<and> (\<exists>evs. trace (snd (process env1 job1 world_ready)) = evs @ [EvRemoveAll ''/tmp/u1'']
            \<and> (\<forall>p. EvRemoveAll p \<notin> set evs))"
proof -
  have h: "fst (os_RemoveAll env1 (localWorkingDir job1) (snd (process_body env1 job1 world_ready))) = nil"
    by (simp add: os_RemoveAll_def env1_def split: prod.splits)
  have s: "env_stuck = env1\<lparr>removeAll_fault := (\<lambda>w p. (PathError ''unlinkat'' p ''permission denied'' 13, \<lambda>q. q = p))\<rparr>"
    by (simp add: env_stuck_def)
  have t: "trace world_ready = []" "localWorkingDir job1 = ''/tmp/u1''"
    by (simp_all add: sample_defs localWorkingDir_def)
  from C1_cleanup [of env1 job1 world_ready
      "\<lambda>w p. (PathError ''unlinkat'' p ''permission denied'' 13, \<lambda>q. q = p)"] h s t
  show ?thesis
    by auto
qed

text \<open>
  C2. The claim fails on the code. Two messages are delivered to a fresh process in which
  \<open>setup\<close> fails. The first \<open>Run\<close> returns the error of \<open>setup\<close>. The second does not:
  \<open>once.Do\<close> does not call the closure again, \<open>err\<close> stays \<open>nil\<close>, and \<open>Run\<close> goes on to
  \<open>process\<close>. When it was \<open>storage.NewClient\<close> that failed, the second job creates its
  directory and clones, then panics on the nil client; when it was \<open>git config\<close>, the
  second job runs to the push and \<open>Run\<close> returns \<open>nil\<close>.
\<close>

theorem C2_failed_setup_is_forgotten:
  "fst (Run_all env_init_fails [''m1'', ''m2''] world1) =
     [Returned (LibError ''dialing: could not find default credentials'' (Some ''{}'')), Panicked]
   \<and> EvMkdir ''/tmp/u1'' \<in> set (trace (snd (Run_all env_init_fails [''m1'', ''m2''] world1)))
   \<and> fst (Run_all env_config_fails [''m1'', ''m2''] world1) =
     [Returned (New (ExitError ''exit status 255'' ''error: could not lock config file'') []),
      Returned nil]
   \<and> EvExec ''/tmp/u1/notes'' [''git'', ''push'', ''-u'', ''origin'', ''HEAD'']
       \<in> set (trace (snd (Run_all env_config_fails [''m1'', ''m2''] world1)))"
  by (simp add: run_defs prog_defs sample_defs suffix_to_prefix digits.simps split: prod.splits)

text \<open>
  C3. \<open>process\<close> is the specification's pipeline over the five stages in the order
  makeWorkingDir, cloneGithubRepo, writeContentFromStorageToFile, makeGitCommit,
  pushToRemote: a stage runs only when every stage before it returned no error; the
  stages that ran are a non-empty initial part \<open>rn\<close> of that order, all of it when the
  result is success; an error result is the error of the last stage that ran, wrapped
  with that stage's name; and the external calls made come stage by stage in that order,
  none of them from a stage after the last one that ran.
\<close>

theorem C3_stage_order:
  "\<exists>rn w1 evs.
      spec_pipeline (stages E d) w = (fst (process E d w), w1, rn)
    \<and> snd (process E d w) = cleanup E d w1
    \<and> map fst (stages E d) = stage_order
    \<and> rn \<noteq> [] \<and> prefix rn stage_order
    \<and> (fst (process E d w) = Returned nil \<longrightarrow> rn = stage_order)
    \<and> (\<forall>e. fst (process E d w) = Returned e \<longrightarrow> e \<noteq> nil \<longrightarrow>
          (\<exists>c. c \<noteq> nil \<and> e = New c (last rn)))
    \<and> trace w1 = trace w @ evs
    \<and> sorted (map stage_no evs)
    \<and> (\<forall>ev\<in>set evs. 1 \<le> stage_no ev \<and> stage_no ev \<le> length rn)"
proof -
  obtain r w1 rn where sp: "spec_pipeline (stages E d) w = (r, w1, rn)"
    by (cases "spec_pipeline (stages E d) w")
  then have pb: "process_body E d w = (r, w1)"
    by (simp add: process_body_refines)
  then have p: "fst (process E d w) = r" "snd (process E d w) = cleanup E d w1"
    by (simp_all add: process_def)
  have names: "map fst (stages E d) = stage_order"
    by (simp add: stages_def stage_order_def)
  have ne: "stages E d \<noteq> []"
    by (simp add: stages_def)
  have "\<exists>evs. trace w1 = trace w @ evs \<and> sorted (map stage_no evs)
           \<and> (\<forall>ev\<in>set evs. 0 < stage_no ev \<and> stage_no ev \<le> 0 + length rn)"
    by (rule spec_pipeline_trace [OF sp]) (rule stages_grow)
  then obtain evs where evs: "trace w1 = trace w @ evs" "sorted (map stage_no evs)"
      "\<forall>ev\<in>set evs. 0 < stage_no ev \<and> stage_no ev \<le> 0 + length rn"
    by blast
  from spec_pipeline_names [OF sp] names ne evs p sp show ?thesis
    by (intro exI [of _ rn] exI [of _ w1] exI [of _ evs]) auto
qed

theorem C3_witness:
  "(\<exists>w1. spec_pipeline (stages env1 job1) world_ready = (Returned nil, w1, stage_order)
         \<and> snd (process env1 job1 world_ready) = cleanup env1 job1 w1)
   \<and> (\<exists>rn w1 evs. spec_pipeline (stages env_clone_fails job1) world_ready =
          (Returned (New (New (ExitError ''exit status 128'' ''fatal: repository not found'') ''Cloning'')
                       ''cloneGithubRepo''), w1, rn)
         \<and> last rn = ''cloneGithubRepo'' \<and> prefix rn stage_order
         \<and> trace w1 = trace world_ready @ evs \<and> sorted (map stage_no evs)
         \<and> (\<forall>ev\<in>set evs. 1 \<le> stage_no ev \<and> stage_no ev \<le> length rn))"
proof -
  from C3_stage_order [of env1 job1 world_ready] run_ok
  have a: "\<exists>w1. spec_pipeline (stages env1 job1) world_ready = (Returned nil, w1, stage_order)
         \<and> snd (process env1 job1 world_ready) = cleanup env1 job1 w1"
    by auto
  from C3_stage_order [of env_clone_fails job1 world_ready]
  obtain rn w1 evs where b:
      "spec_pipeline (stages env_clone_fails job1) world_ready =
         (fst (process env_clone_fails job1 world_ready), w1, rn)"
      "prefix rn stage_order"
      "\<forall>e. fst (process env_clone_fails job1 world_ready) = Returned e \<longrightarrow> e \<noteq> nil \<longrightarrow>
          (\<exists>c. c \<noteq> nil \<and> e = New c (last rn))"
      "trace w1 = trace world_ready @ evs" "sorted (map stage_no evs)"
      "\<forall>ev\<in>set evs. 1 \<le> stage_no ev \<and> stage_no ev \<le> length rn"
    by blast
  from b(3) run_clone_fails have "last rn = ''cloneGithubRepo''"
    by (auto simp: New_def)
  with b run_clone_fails a show ?thesis
    by auto
qed

text \<open>
  C4. With a storage client, and \<open>names\<close> the names the iterator yields before it ends with
  \<open>fin\<close>: the stage first calls \<open>it.Next()\<close> once per name and once more, before any other
  call. When the listing ends with an error, the stage returns that error, opens no
  object and leaves the file system as it was. Otherwise it runs the copy loop on exactly
  the names that do not end in a slash, in the order of the listing: the objects it
  opens, and the objects it copies with \<open>io.Copy\<close>, each into \<open>/tmp/<key>\<close>, are initial
  parts of that list in that order (the loop stops at the first copy that fails). When
  the stage succeeds, they are all of that list, and every key of the list is a file on
  disk at \<open>/tmp/<key>\<close>.
\<close>

theorem C4_materialize:
  "storageClient w \<noteq> None \<longrightarrow>
   bucket_Objects E (UserID d) w = ObjectIterator b p names fin \<longrightarrow>
     b = bucketName E \<and> p = UserID d
   \<and> (fin \<noteq> nil \<and> fin \<noteq> iterator_Done \<longrightarrow>
        fst (writeContentFromStorageToFile E d w) = Returned fin
        \<and> fs (snd (writeContentFromStorageToFile E d w)) = fs w
        \<and> (\<exists>line. trace (snd (writeContentFromStorageToFile E d w)) =
              trace w @ replicate (Suc (length names)) (EvNext b p) @ [EvLog line]))
   \<and> (fin = nil \<or> fin = iterator_Done \<longrightarrow>
        writeContentFromStorageToFile E d w =
          (case copy_loop E d (filter (\<lambda>n. \<not> HasSuffix n ''/'') names)
                  (w\<lparr>trace := trace w @ replicate (Suc (length names)) (EvNext b p)\<rparr>) of
             (e, w2) \<Rightarrow> (Returned e, w2))
        \<and> (\<exists>evs. trace (snd (writeContentFromStorageToFile E d w)) =
                   trace w @ replicate (Suc (length names)) (EvNext b p) @ evs
              \<and> (\<forall>b' p'. EvNext b' p' \<notin> set evs)
              \<and> prefix (opened evs) (filter (\<lambda>n. \<not> HasSuffix n ''/'') names)
              \<and> prefix (copied evs)
                   (map (\<lambda>f. (f, ''/tmp/'' @ f)) (filter (\<lambda>n. \<not> HasSuffix n ''/'') names))
              \<and> (fst (writeContentFromStorageToFile E d w) = Returned nil \<longrightarrow>
                   opened evs = filter (\<lambda>n. \<not> HasSuffix n ''/'') names
                 \<and> copied evs =
                     map (\<lambda>f. (f, ''/tmp/'' @ f)) (filter (\<lambda>n. \<not> HasSuffix n ''/'') names)))
        \<and> (fst (writeContentFromStorageToFile E d w) = Returned nil \<longrightarrow>
             (\<forall>f\<in>set (filter (\<lambda>n. \<not> HasSuffix n ''/'') names).
                \<exists>c. fs (snd (writeContentFromStorageToFile E d w)) (''/tmp/'' @ f) = Some (File c))))"
proof (intro impI conjI)
  assume sc: "storageClient w \<noteq> None"
     and it: "bucket_Objects E (UserID d) w = ObjectIterator b p names fin"
  let ?w1 = "w\<lparr>trace := trace w @ replicate (Suc (length names)) (EvNext b p)\<rparr>"
  let ?files = "filter (\<lambda>n. \<not> HasSuffix n ''/'') names"
  from it show "b = bucketName E" "p = UserID d"
    by (auto simp: bucket_Objects_def Let_def split: option.splits)
  {
    assume bad: "fin \<noteq> nil \<and> fin \<noteq> iterator_Done"
    with sc it show "fst (writeContentFromStorageToFile E d w) = Returned fin"
      by (auto simp: writeContentFromStorageToFile_def list_loop_result Let_def)
    from bad sc it show "fs (snd (writeContentFromStorageToFile E d w)) = fs w"
      by (auto simp: writeContentFromStorageToFile_def list_loop_result Let_def log_Error_def)
    from bad sc it show "\<exists>line. trace (snd (writeContentFromStorageToFile E d w)) =
              trace w @ replicate (Suc (length names)) (EvNext b p) @ [EvLog line]"
      by (auto simp: writeContentFromStorageToFile_def list_loop_result Let_def log_Error_def
               simp del: replicate_Suc)
  }
  {
    assume ok: "fin = nil \<or> fin = iterator_Done"
    with sc it show eq: "writeContentFromStorageToFile E d w =
          (case copy_loop E d ?files ?w1 of (e, w2) \<Rightarrow> (Returned e, w2))"
      by (auto simp: writeContentFromStorageToFile_def list_loop_result Let_def)
    obtain e w2 where cl: "copy_loop E d ?files ?w1 = (e, w2)"
      by (cases "copy_loop E d ?files ?w1")
    from copy_loop_opened [OF cl] obtain evs where
      "trace w2 = trace ?w1 @ evs" "\<forall>b p. EvNext b p \<notin> set evs"
      "prefix (opened evs) ?files" "e = nil \<longrightarrow> opened evs = ?files"
      "prefix (copied evs) (map (\<lambda>f. (f, ''/tmp/'' @ f)) ?files)"
      "e = nil \<longrightarrow> copied evs = map (\<lambda>f. (f, ''/tmp/'' @ f)) ?files"
      by blast
    with eq cl show "\<exists>evs. trace (snd (writeContentFromStorageToFile E d w)) =
                   trace w @ replicate (Suc (length names)) (EvNext b p) @ evs
              \<and> (\<forall>b' p'. EvNext b' p' \<notin> set evs)
              \<and> prefix (opened evs) ?files
              \<and> prefix (copied evs) (map (\<lambda>f. (f, ''/tmp/'' @ f)) ?files)
              \<and> (fst (writeContentFromStorageToFile E d w) = Returned nil \<longrightarrow>
                   opened evs = ?files
                 \<and> copied evs = map (\<lambda>f. (f, ''/tmp/'' @ f)) ?files)"
      by (intro exI [of _ evs]) (simp del: replicate_Suc)
    {
      assume "fst (writeContentFromStorageToFile E d w) = Returned nil"
      with eq cl have cl': "copy_loop E d ?files ?w1 = (nil, w2)"
        and w2: "snd (writeContentFromStorageToFile E d w) = w2"
        by simp_all
      show "\<forall>f\<in>set ?files.
              \<exists>c. fs (snd (writeContentFromStorageToFile E d w)) (''/tmp/'' @ f) = Some (File c)"
        using copy_loop_creates [OF cl'] w2 by (auto simp: is_file_def)
    }
  }
qed

theorem C4_witness:
  "(\<exists>evs. fst (writeContentFromStorageToFile env1 job1 world_ready) = Returned nil
       \<and> trace (snd (writeContentFromStorageToFile env1 job1 world_ready)) =
            replicate 4 (EvNext ''ide'' ''u1'') @ evs
       \<and> opened evs = [''u1/a.md'', ''u1/docs/b.md'']
       \<and> copied evs = [(''u1/a.md'', ''/tmp/u1/a.md''), (''u1/docs/b.md'', ''/tmp/u1/docs/b.md'')])
   \<and> (\<exists>c. fs (snd (writeContentFromStorageToFile env1 job1 world_ready)) ''/tmp/u1/a.md''
              = Some (File c))
   \<and> (\<exists>c. fs (snd (writeContentFromStorageToFile env1 job1 world_ready)) ''/tmp/u1/docs/b.md''
              = Some (File c))
   \<and> fst (writeContentFromStorageToFile env_list_fails job1 world_ready) =
        Returned (LibError ''context deadline exceeded'' (Some ''{}''))
   \<and> fs (snd (writeContentFromStorageToFile env_list_fails job1 world_ready)) = fs world_ready
   \<and> (\<exists>line. trace (snd (writeContentFromStorageToFile env_list_fails job1 world_ready)) =
          replicate 3 (EvNext ''ide'' ''u1'') @ [EvLog line])"
proof -
  have sc: "storageClient world_ready \<noteq> None" and t: "trace world_ready = []"
    by (simp_all add: sample_defs)
  have it1: "bucket_Objects env1 (UserID job1) world_ready =
               ObjectIterator ''ide'' ''u1'' [''u1/'', ''u1/a.md'', ''u1/docs/b.md''] nil"
    by (simp add: bucket_Objects_def sample_defs)
  have it2: "bucket_Objects env_list_fails (UserID job1) world_ready =
               ObjectIterator ''ide'' ''u1'' [''u1/'', ''u1/a.md'']
                 (LibError ''context deadline exceeded'' (Some ''{}''))"
    by (simp add: bucket_Objects_def sample_defs)
  have f: "filter (\<lambda>n. \<not> HasSuffix n ''/'') [''u1/'', ''u1/a.md'', ''u1/docs/b.md'']
             = [''u1/a.md'', ''u1/docs/b.md'']"
    by (simp add: HasSuffix_def suffix_to_prefix)
  note ok = C4_materialize [of world_ready env1 job1 "''ide''" "''u1''"
         "[''u1/'', ''u1/a.md'', ''u1/docs/b.md'']" nil]
  from ok sc it1 run_materialize_ok
  have a: "\<exists>evs. trace (snd (writeContentFromStorageToFile env1 job1 world_ready)) =
                   trace world_ready @ replicate (Suc (length [''u1/'', ''u1/a.md'', ''u1/docs/b.md''])) (EvNext ''ide'' ''u1'') @ evs
              \<and> opened evs = filter (\<lambda>n. \<not> HasSuffix n ''/'') [''u1/'', ''u1/a.md'', ''u1/docs/b.md'']
              \<and> copied evs = map (\<lambda>f. (f, ''/tmp/'' @ f))
                   (filter (\<lambda>n. \<not> HasSuffix n ''/'') [''u1/'', ''u1/a.md'', ''u1/docs/b.md''])"
    by blast
  from ok sc it1 run_materialize_ok
  have "\<forall>f\<in>set (filter (\<lambda>n. \<not> HasSuffix n ''/'') [''u1/'', ''u1/a.md'', ''u1/docs/b.md'']).
          \<exists>c. fs (snd (writeContentFromStorageToFile env1 job1 world_ready)) (''/tmp/'' @ f) = Some (File c)"
    by blast
  then have c: "\<exists>c. fs (snd (writeContentFromStorageToFile env1 job1 world_ready)) ''/tmp/u1/a.md''
              = Some (File c)"
      "\<exists>c. fs (snd (writeContentFromStorageToFile env1 job1 world_ready)) ''/tmp/u1/docs/b.md''
              = Some (File c)"
    unfolding f by simp_all
  have ne: "LibError ''context deadline exceeded'' (Some ''{}'') \<noteq> nil
            \<and> LibError ''context deadline exceeded'' (Some ''{}'') \<noteq> iterator_Done"
    by simp
  from C4_materialize [of world_ready env_list_fails job1 "''ide''" "''u1''"
         "[''u1/'', ''u1/a.md'']" "LibError ''context deadline exceeded'' (Some ''{}'')"] sc it2 ne
  have b: "fst (writeContentFromStorageToFile env_list_fails job1 world_ready) =
             Returned (LibError ''context deadline exceeded'' (Some ''{}''))"
      "fs (snd (writeContentFromStorageToFile env_list_fails job1 world_ready)) = fs world_ready"
      "\<exists>line. trace (snd (writeContentFromStorageToFile env_list_fails job1 world_ready)) =
          trace world_ready @ replicate (Suc (length [''u1/'', ''u1/a.md''])) (EvNext ''ide'' ''u1'') @ [EvLog line]"
    by blast+
  from a [unfolded f] b c run_materialize_ok show ?thesis
    by (simp add: t eval_nat_numeral)
qed

text \<open>
  C5. In a run of \<open>process\<close> whose first two stages succeed and whose listing succeeds
  with the list \<open>files\<close>: when the first \<open>k\<close> objects are copied and the copy of the next
  one fails with \<open>e\<close>, the stage returns \<open>e\<close> in a world where each of those \<open>k\<close> files
  is on disk; \<open>process\<close> returns \<open>e\<close> wrapped with the stage's name; and the only command
  the whole run executes is the \<open>git clone\<close>: no \<open>git add\<close>, \<open>git commit\<close> or \<open>git push\<close>.
\<close>

theorem C5_partial_materialization:
  assumes mk: "makeWorkingDir E d w = (nil, wa)"
      and cl: "cloneGithubRepo E d wa = (nil, wb)"
      and sc: "storageClient wb \<noteq> None"
      and ls: "list_loop E (bucket_Objects E (UserID d) wb) [] wb = (nil, files, wc)"
      and k: "k < length files"
      and ok: "copy_loop E d (take k files) wc = (nil, w1)"
      and bad: "writeContentFromStorageToFile_one E d (files ! k) w1 = (e, w2)" "e \<noteq> nil"
  shows "writeContentFromStorageToFile E d wb = (Returned e, w2)
       \<and> (\<forall>i<k. \<exists>c. fs w2 (''/tmp/'' @ files ! i) = Some (File c))
       \<and> process E d w = (Returned (New e ''writeContentFromStorageToFile''), cleanup E d w2)
       \<and> (\<exists>evs. trace (snd (process E d w)) = trace w @ evs
              \<and> (\<forall>dir argv. EvExec dir argv \<in> set evs \<longrightarrow>
                    argv = [''git'', ''clone'', clone_url d]))"
proof -
  from copy_loop_fails_at [OF k ok bad]
  have cp: "copy_loop E d files wc = (e, w2)"
    and fl: "\<forall>i<k. is_file w2 (''/tmp/'' @ files ! i)"
    by blast+
  from sc ls cp have wr: "writeContentFromStorageToFile E d wb = (Returned e, w2)"
    by (auto simp: writeContentFromStorageToFile_def)
  from mk cl wr bad(2) have pb: "process_body E d w = (Returned (New e ''writeContentFromStorageToFile''), w2)"
    by (simp add: process_body_def)
  then have pr: "process E d w = (Returned (New e ''writeContentFromStorageToFile''), cleanup E d w2)"
    by (simp add: process_def)
  from mk have ta: "trace wa = trace w @ [EvMkdir (localWorkingDir d)]"
    by (auto simp: makeWorkingDir_def dest: tr_Mkdir)
  from cl have tb: "trace wb = trace wa @ [EvExec (localWorkingDir d) [''git'', ''clone'', clone_url d]]"
    by (auto simp: cloneGithubRepo_def split: prod.splits if_splits dest: tr_Output)
  from grows_writeContentFromStorageToFile [OF wr] obtain evs3 where
    t3: "trace w2 = trace wb @ evs3" "\<forall>ev\<in>set evs3. stage_no ev = 3"
    by (auto simp: grows_def list_all_iff)
  have "\<forall>dir argv. EvExec dir argv \<notin> set evs3"
    using t3(2) stage3_no_Exec by blast
  with ta tb t3(1) pr
  have "\<exists>evs. trace (snd (process E d w)) = trace w @ evs
              \<and> (\<forall>dir argv. EvExec dir argv \<in> set evs \<longrightarrow> argv = [''git'', ''clone'', clone_url d])"
    by (intro exI [of _ "EvMkdir (localWorkingDir d) # EvExec (localWorkingDir d) [''git'', ''clone'', clone_url d]
           # evs3 @ [EvRemoveAll (localWorkingDir d)]"]) (auto simp: tr_cleanup)
  with wr fl pr show ?thesis
    by (simp add: is_file_def)
qed

theorem C5_witness:
  "fst (process env_copy_fails job1 world_ready) =
      Returned (New (LibError ''unexpected EOF'' (Some ''{}'')) ''writeContentFromStorageToFile'')
   \<and> (\<exists>w2. snd (process env_copy_fails job1 world_ready) = cleanup env_copy_fails job1 w2
           \<and> fs w2 ''/tmp/u1/a.md'' = Some (File ''data of u1/a.md''))
   \<and> (\<exists>evs. trace (snd (process env_copy_fails job1 world_ready)) = evs
          \<and> (\<forall>dir argv. EvExec dir argv \<in> set evs \<longrightarrow>
                argv = [''git'', ''clone'', ''https://tok@github.com/alice/notes.git'']))"
proof -
  let ?E = env_copy_fails
  let ?f0 = "[''/tmp'' \<mapsto> Dir, ''/tmp/u1'' \<mapsto> Dir]"
  let ?t1 = "[EvMkdir ''/tmp/u1'']"
  let ?t2 = "?t1 @ [EvExec ''/tmp/u1'' [''git'', ''clone'', ''https://tok@github.com/alice/notes.git'']]"
  let ?t3 = "?t2 @ [EvNext ''ide'' ''u1'', EvNext ''ide'' ''u1'', EvNext ''ide'' ''u1'', EvNext ''ide'' ''u1'']"
  let ?t4 = "?t3 @ [EvNewReader ''ide'' ''u1/a.md'', EvMkdirAll ''/tmp/u1'', EvCreate ''/tmp/u1/a.md'',
      EvCopy ''u1/a.md'' ''/tmp/u1/a.md'', EvFileClose ''/tmp/u1/a.md'', EvReaderClose ''u1/a.md'']"
  let ?t5 = "?t4 @ [EvNewReader ''ide'' ''u1/docs/b.md'', EvMkdirAll ''/tmp/u1/docs'',
      EvCreate ''/tmp/u1/docs/b.md'', EvCopy ''u1/docs/b.md'' ''/tmp/u1/docs/b.md'',
      EvFileClose ''/tmp/u1/docs/b.md'', EvReaderClose ''u1/docs/b.md'']"
  let ?f1 = "?f0(''/tmp/u1/a.md'' \<mapsto> File ''data of u1/a.md'')"
  let ?f2 = "?f1(''/tmp/u1/docs'' \<mapsto> Dir, ''/tmp/u1/docs/b.md'' \<mapsto> File ''da'')"
  let ?wa = "\<lparr>fs = ?f0, trace = ?t1, once_done = True, storageClient = Some Client\<rparr>"
  let ?wb = "\<lparr>fs = ?f0, trace = ?t2, once_done = True, storageClient = Some Client\<rparr>"
  let ?wc = "\<lparr>fs = ?f0, trace = ?t3, once_done = True, storageClient = Some Client\<rparr>"
  let ?w1 = "\<lparr>fs = ?f1, trace = ?t4, once_done = True, storageClient = Some Client\<rparr>"
  let ?w2 = "\<lparr>fs = ?f2, trace = ?t5, once_done = True, storageClient = Some Client\<rparr>"
  let ?files = "[''u1/a.md'', ''u1/docs/b.md'']"
  let ?e = "LibError ''unexpected EOF'' (Some ''{}'')"
  have mk: "makeWorkingDir ?E job1 world_ready = (nil, ?wa)"
    by (simp add: makeWorkingDir_def os_Mkdir_def Let_def localWorkingDir_def emit_def sample_defs)
  have cl: "cloneGithubRepo ?E job1 ?wa = (nil, ?wb)"
    by (simp add: cloneGithubRepo_def cmd_Output_def localWorkingDir_def clone_url_def emit_def
          sample_defs)
  have sc: "storageClient ?wb \<noteq> None"
    by simp
  have ls: "list_loop ?E (bucket_Objects ?E (UserID job1) ?wb) [] ?wb = (nil, ?files, ?wc)"
    by (simp add: bucket_Objects_def list_loop_result Let_def HasSuffix_def suffix_to_prefix
          sample_defs)
  have k: "1 < length ?files"
    by simp
  have ok: "copy_loop ?E job1 (take 1 ?files) ?wc = (nil, ?w1)"
    by (simp add: writeContentFromStorageToFile_one_def storage_NewReader_def os_MkdirAll_def
          os_Create_def io_Copy_def Let_def emit_def Reader_Close_def File_Close_def
          example_Dir_def sample_defs)
  have bad: "writeContentFromStorageToFile_one ?E job1 (?files ! 1) ?w1 = (?e, ?w2)" "?e \<noteq> nil"
    by (simp_all add: writeContentFromStorageToFile_one_def storage_NewReader_def os_MkdirAll_def
          os_Create_def io_Copy_def Let_def emit_def Reader_Close_def File_Close_def
          example_Dir_def sample_defs)
  have t: "trace world_ready = []" "clone_url job1 = ''https://tok@github.com/alice/notes.git''"
    by (simp_all add: sample_defs clone_url_def)
  from C5_partial_materialization [OF mk cl sc ls k ok bad]
  have "process ?E job1 world_ready = (Returned (New ?e ''writeContentFromStorageToFile''), cleanup ?E job1 ?w2)"
    and "\<exists>evs. trace (snd (process ?E job1 world_ready)) = trace world_ready @ evs
              \<and> (\<forall>dir argv. EvExec dir argv \<in> set evs \<longrightarrow> argv = [''git'', ''clone'', clone_url job1])"
    by blast+
  with t show ?thesis
    by (intro conjI exI [of _ ?w2]) simp_all
qed

text \<open>
  C6. The clone stage makes one call: \<open>git clone https://<token>@github.com/<owner>/<repo>.git\<close>
  with the working directory \<open>/tmp/<user_id>\<close>. When that command exits with a status
  other than 0, the stage returns the error \<open>New(e, out)\<close>, where \<open>out\<close> is the captured
  standard output and \<open>e\<close> the exit error that holds the captured standard error.
\<close>

theorem C6_clone:
  "trace (snd (cloneGithubRepo E d w)) =
     trace w @ [EvExec (localWorkingDir d)
                  [''git'', ''clone'',
                   ''https://'' @ GithubToken d @ ''@github.com/'' @ GithubUsername d
                     @ ''/'' @ RepoName d @ ''.git'']]
   \<and> localWorkingDir d = ''/tmp/'' @ UserID d
   \<and> (\<forall>n out errout fs'.
         run_command E w (localWorkingDir d)
           [''git'', ''clone'',
            ''https://'' @ GithubToken d @ ''@github.com/'' @ GithubUsername d
              @ ''/'' @ RepoName d @ ''.git''] = (Exited n, out, errout, fs')
         \<longrightarrow> n \<noteq> 0
         \<longrightarrow> fst (cloneGithubRepo E d w) = New (ExitError (''exit status '' @ digits n) errout) out
             \<and> fst (cloneGithubRepo E d w) \<noteq> nil)"
  by (auto simp: cloneGithubRepo_def cmd_Output_def clone_url_def localWorkingDir_def New_def
           split: prod.splits)

theorem C6_witness:
  "run_command env_clone_fails world_ready ''/tmp/u1''
       [''git'', ''clone'', ''https://tok@github.com/alice/notes.git'']
     = (Exited 128, ''Cloning'', ''fatal: repository not found'', fs world_ready)
   \<and> fst (cloneGithubRepo env_clone_fails job1 world_ready)
     = New (ExitError ''exit status 128'' ''fatal: repository not found'') ''Cloning''
   \<and> trace (snd (cloneGithubRepo env_clone_fails job1 world_ready))
     = [EvExec ''/tmp/u1'' [''git'', ''clone'', ''https://tok@github.com/alice/notes.git'']]"
proof -
  have r: "run_command env_clone_fails world_ready (localWorkingDir job1)
       [''git'', ''clone'', ''https://'' @ GithubToken job1 @ ''@github.com/'' @ GithubUsername job1
              @ ''/'' @ RepoName job1 @ ''.git'']
     = (Exited 128, ''Cloning'', ''fatal: repository not found'', fs world_ready)"
    by (simp add: sample_defs localWorkingDir_def)
  have n: "(128::nat) \<noteq> 0" by simp
  have t: "trace world_ready = []" "localWorkingDir job1 = ''/tmp/u1''"
      "GithubToken job1 = ''tok''" "GithubUsername job1 = ''alice''" "RepoName job1 = ''notes''"
      "digits 128 = ''128''"
    by (simp_all add: sample_defs localWorkingDir_def digits.simps)
  from C6_clone [of env_clone_fails job1 world_ready] r n
  have "fst (cloneGithubRepo env_clone_fails job1 world_ready)
          = New (ExitError (''exit status '' @ digits 128) ''fatal: repository not found'') ''Cloning''"
       "trace (snd (cloneGithubRepo env_clone_fails job1 world_ready)) =
     trace world_ready @ [EvExec (localWorkingDir job1)
                  [''git'', ''clone'',
                   ''https://'' @ GithubToken job1 @ ''@github.com/'' @ GithubUsername job1
                     @ ''/'' @ RepoName job1 @ ''.git'']]"
    by blast+
  with r show ?thesis
    by (simp add: t)
qed


text \<open>
  C8. The claim fails on the code. The message of the wrapped error is the JSON text of
  the struct, and \<open>json.Marshal\<close> writes the cause by its exported fields, not by its
  \<open>Error()\<close> text. For a job whose directory exists, the cause says
  \<open>mkdir /tmp/u1: file exists\<close>; the message names the stage but does not hold that
  text. For a listing that ends with \<open>context deadline exceeded\<close>, the cause is written
  as an empty object.
\<close>

theorem C8_message_without_cause_text:
  \<open>fst (process env1 job1 world_busy) =
     Returned (New (EEXIST ''mkdir'' ''/tmp/u1'') ''makeWorkingDir'')
   \<and> fmt_s (EEXIST ''mkdir'' ''/tmp/u1'') = ''mkdir /tmp/u1: file exists''
   \<and> fmt_s (New (EEXIST ''mkdir'' ''/tmp/u1'') ''makeWorkingDir'') =
       ''{"err":{"Op":"mkdir","Path":"/tmp/u1","Err":17},"extra":"makeWorkingDir"}''
   \<and> Contains (fmt_s (New (EEXIST ''mkdir'' ''/tmp/u1'') ''makeWorkingDir'')) ''makeWorkingDir''
   \<and> \<not> Contains (fmt_s (New (EEXIST ''mkdir'' ''/tmp/u1'') ''makeWorkingDir'')) ''file exists''
   \<and> fst (process env_list_fails job1 world_ready) =
       Returned (New (LibError ''context deadline exceeded'' (Some ''{}''))
                   ''writeContentFromStorageToFile'')
   \<and> fmt_s (New (LibError ''context deadline exceeded'' (Some ''{}''))
                   ''writeContentFromStorageToFile'') =
       ''{"err":{},"extra":"writeContentFromStorageToFile"}''\<close>
proof -
  have a: "fst (process env1 job1 world_busy) =
     Returned (New (EEXIST ''mkdir'' ''/tmp/u1'') ''makeWorkingDir'')"
    by (simp add: prog_defs sample_defs EEXIST_def PathError_def suffix_to_prefix)
  have b: "fmt_s (EEXIST ''mkdir'' ''/tmp/u1'') = ''mkdir /tmp/u1: file exists''"
    by (simp add: EEXIST_def PathError_def)
  have c: \<open>fmt_s (New (EEXIST ''mkdir'' ''/tmp/u1'') ''makeWorkingDir'') =
       ''{"err":{"Op":"mkdir","Path":"/tmp/u1","Err":17},"extra":"makeWorkingDir"}''\<close>
    by (simp add: New_def EEXIST_def PathError_def json_object_def json_string_def json_byte_def
          quoted_def dq_def digits.simps Let_def enumerate_eq_zip)
  have d: \<open>Contains ''{"err":{"Op":"mkdir","Path":"/tmp/u1","Err":17},"extra":"makeWorkingDir"}''
             ''makeWorkingDir''\<close>
    by simp
  have e: \<open>\<not> Contains ''{"err":{"Op":"mkdir","Path":"/tmp/u1","Err":17},"extra":"makeWorkingDir"}''
             ''file exists''\<close>
    by simp
  have f: "fst (process env_list_fails job1 world_ready) =
       Returned (New (LibError ''context deadline exceeded'' (Some ''{}''))
                   ''writeContentFromStorageToFile'')"
    by (simp add: prog_defs sample_defs list_loop_result)
  have g: \<open>fmt_s (New (LibError ''context deadline exceeded'' (Some ''{}''))
                   ''writeContentFromStorageToFile'') =
       ''{"err":{},"extra":"writeContentFromStorageToFile"}''\<close>
    by (simp add: New_def json_object_def json_string_def json_byte_def
          quoted_def dq_def Let_def enumerate_eq_zip)
  from a b c d e f g show ?thesis
    by (simp only: simp_thms)
qed

text \<open>
  C9. For a job whose \<open>user_id\<close> is empty: the working directory is \<open>/tmp/\<close>, which is what
  \<open>os.Mkdir\<close> is called on; the listing is asked with the empty prefix, so the iterator
  holds every name of the bucket (up to where a listing fault cuts it); \<open>cleanup\<close> calls
  \<open>os.RemoveAll\<close> on \<open>/tmp/\<close>; and once \<open>once.Do\<close> has left no error, \<open>Run\<close> hands the
  decoded job to \<open>process\<close> as it is, without looking at any field: its result is that
  of \<open>process\<close>, whose first call is the \<open>os.Mkdir\<close> of \<open>/tmp/\<close>.
\<close>

theorem C9_empty_user_id:
  "UserID d = [] \<longrightarrow>
     localWorkingDir d = ''/tmp/''
   \<and> trace (snd (makeWorkingDir E d w)) = trace w @ [EvMkdir ''/tmp/'']
   \<and> bucket_Objects E (UserID d) w =
       (case list_fault E w (bucketName E) [] of
          None \<Rightarrow> ObjectIterator (bucketName E) [] (bucket_keys E w (bucketName E)) nil
        | Some (n, e) \<Rightarrow> ObjectIterator (bucketName E) [] (take n (bucket_keys E w (bucketName E))) e)
   \<and> (storageClient w \<noteq> None \<longrightarrow>
        (\<exists>evs. trace (snd (writeContentFromStorageToFile E d w)) =
                 trace w @ EvNext (bucketName E) [] # evs))
   \<and> trace (cleanup E d w) = trace w @ [EvRemoveAll ''/tmp/'']
   \<and> (\<forall>m. json_Unmarshal E m = (nil, d) \<longrightarrow> fst (once_Do_setup E w) = nil \<longrightarrow>
          fst (Run E m w) = fst (process E d (snd (once_Do_setup E w)))
        \<and> (\<exists>evs. trace (snd (Run E m w)) =
                   trace (snd (once_Do_setup E w)) @ EvMkdir ''/tmp/'' # evs))"
proof
  assume u: "UserID d = []"
  then have l: "localWorkingDir d = ''/tmp/''"
    by (simp add: localWorkingDir_def)
  have a: "trace (snd (makeWorkingDir E d w)) = trace w @ [EvMkdir ''/tmp/'']"
    using tr_Mkdir [of E "''/tmp/''" w] l
    by (cases "os_Mkdir E ''/tmp/'' w") (simp add: makeWorkingDir_def)
  have b: "bucket_Objects E (UserID d) w =
       (case list_fault E w (bucketName E) [] of
          None \<Rightarrow> ObjectIterator (bucketName E) [] (bucket_keys E w (bucketName E)) nil
        | Some (n, e) \<Rightarrow> ObjectIterator (bucketName E) [] (take n (bucket_keys E w (bucketName E))) e)"
    using u by (simp add: bucket_Objects_def split: option.splits)
  have c: "storageClient w \<noteq> None \<longrightarrow>
        (\<exists>evs. trace (snd (writeContentFromStorageToFile E d w)) =
                 trace w @ EvNext (bucketName E) [] # evs)"
    using writeContent_first [of w E d] u by simp
  have e: "trace (cleanup E d w) = trace w @ [EvRemoveAll ''/tmp/'']"
    using l by (simp add: tr_cleanup)
  have f: "\<forall>m. json_Unmarshal E m = (nil, d) \<longrightarrow> fst (once_Do_setup E w) = nil \<longrightarrow>
          fst (Run E m w) = fst (process E d (snd (once_Do_setup E w)))
        \<and> (\<exists>evs. trace (snd (Run E m w)) =
                   trace (snd (once_Do_setup E w)) @ EvMkdir ''/tmp/'' # evs)"
  proof (intro allI impI)
    fix m
    assume m: "json_Unmarshal E m = (nil, d)" "fst (once_Do_setup E w) = nil"
    let ?w0 = "snd (once_Do_setup E w)"
    from process_body_first [of E d ?w0] l obtain evs1 where
      1: "trace (snd (process_body E d ?w0)) = trace ?w0 @ EvMkdir ''/tmp/'' # evs1"
      by auto
    have 2: "trace (snd (process E d ?w0)) =
               trace (snd (process_body E d ?w0)) @ [EvRemoveAll (localWorkingDir d)]"
      by (rule tr_process)
    from Run_after_setup [OF m] 1 2 show "fst (Run E m w) = fst (process E d ?w0)
        \<and> (\<exists>evs. trace (snd (Run E m w)) = trace ?w0 @ EvMkdir ''/tmp/'' # evs)"
      by auto
  qed
  from l a b c e f show "localWorkingDir d = ''/tmp/''
   \<and> trace (snd (makeWorkingDir E d w)) = trace w @ [EvMkdir ''/tmp/'']
   \<and> bucket_Objects E (UserID d) w =
       (case list_fault E w (bucketName E) [] of
          None \<Rightarrow> ObjectIterator (bucketName E) [] (bucket_keys E w (bucketName E)) nil
        | Some (n, e) \<Rightarrow> ObjectIterator (bucketName E) [] (take n (bucket_keys E w (bucketName E))) e)
   \<and> (storageClient w \<noteq> None \<longrightarrow>
        (\<exists>evs. trace (snd (writeContentFromStorageToFile E d w)) =
                 trace w @ EvNext (bucketName E) [] # evs))
   \<and> trace (cleanup E d w) = trace w @ [EvRemoveAll ''/tmp/'']
   \<and> (\<forall>m. json_Unmarshal E m = (nil, d) \<longrightarrow> fst (once_Do_setup E w) = nil \<longrightarrow>
          fst (Run E m w) = fst (process E d (snd (once_Do_setup E w)))
        \<and> (\<exists>evs. trace (snd (Run E m w)) =
                   trace (snd (once_Do_setup E w)) @ EvMkdir ''/tmp/'' # evs))"
    by blast
qed

theorem C9_witness:
  "UserID job_empty = []
   \<and> localWorkingDir job_empty = ''/tmp/''
   \<and> trace (snd (makeWorkingDir env_empty job_empty world_ready)) = [EvMkdir ''/tmp/'']
   \<and> bucket_Objects env_empty (UserID job_empty) world_ready =
        ObjectIterator ''ide'' [] [''u1/'', ''u1/a.md'', ''u1/docs/b.md'', ''u2/c.md''] nil
   \<and> (\<exists>evs. trace (snd (writeContentFromStorageToFile env_empty job_empty world_ready)) =
                 EvNext ''ide'' [] # evs)
   \<and> trace (cleanup env_empty job_empty world_ready) = [EvRemoveAll ''/tmp/'']
   \<and> fst (once_Do_setup env_empty world1) = nil
   \<and> fst (Run env_empty ''{}'' world1) =
        fst (process env_empty job_empty (snd (once_Do_setup env_empty world1)))
   \<and> (\<exists>evs. trace (snd (Run env_empty ''{}'' world1)) =
          [EvNewClient,
           EvExec [] [''git'', ''config'', ''--global'', ''user.email'', quoted ''bot@example.com''],
           EvExec [] [''git'', ''config'', ''--global'', ''user.name'', quoted ''bot'']]
          @ EvMkdir ''/tmp/'' # evs)"
proof -
  have u: "UserID job_empty = []"
    by (simp add: job_empty_def)
  have t: "trace world_ready = []" "storageClient world_ready \<noteq> None"
      "json_Unmarshal env_empty ''{}'' = (nil, job_empty)"
      "list_fault env_empty world_ready (bucketName env_empty) [] = None"
      "bucketName env_empty = ''ide''"
      "bucket_keys env_empty world_ready ''ide'' = [''u1/'', ''u1/a.md'', ''u1/docs/b.md'', ''u2/c.md'']"
    by (simp_all add: sample_defs)
  have s: "fst (once_Do_setup env_empty world1) = nil"
      "trace (snd (once_Do_setup env_empty world1)) =
          [EvNewClient,
           EvExec [] [''git'', ''config'', ''--global'', ''user.email'', quoted ''bot@example.com''],
           EvExec [] [''git'', ''config'', ''--global'', ''user.name'', quoted ''bot'']]"
    by (simp_all add: once_Do_setup_def setup_fn_def storage_NewClient_def cmd_Output_def
          emit_def Let_def sample_defs)
  from C9_empty_user_id [of job_empty env_empty world_ready] u t
  have a: "localWorkingDir job_empty = ''/tmp/''
   \<and> trace (snd (makeWorkingDir env_empty job_empty world_ready)) = [EvMkdir ''/tmp/'']
   \<and> bucket_Objects env_empty (UserID job_empty) world_ready =
        ObjectIterator ''ide'' [] [''u1/'', ''u1/a.md'', ''u1/docs/b.md'', ''u2/c.md''] nil
   \<and> (\<exists>evs. trace (snd (writeContentFromStorageToFile env_empty job_empty world_ready)) =
                 EvNext ''ide'' [] # evs)
   \<and> trace (cleanup env_empty job_empty world_ready) = [EvRemoveAll ''/tmp/'']"
    by simp
  from C9_empty_user_id [of job_empty env_empty world1] u t(3) s
  have b: "fst (Run env_empty ''{}'' world1) =
        fst (process env_empty job_empty (snd (once_Do_setup env_empty world1)))
   \<and> (\<exists>evs. trace (snd (Run env_empty ''{}'' world1)) =
          [EvNewClient,
           EvExec [] [''git'', ''config'', ''--global'', ''user.email'', quoted ''bot@example.com''],
           EvExec [] [''git'', ''config'', ''--global'', ''user.name'', quoted ''bot'']]
          @ EvMkdir ''/tmp/'' # evs)"
    by simp
  from u a b s(1) show ?thesis
    by blast
qed

text \<open>
  C10. For every error \<open>e\<close> (nil included) and every string \<open>s\<close>, \<open>New e s\<close> is a non-nil
  error value, it is the struct holding \<open>e\<close> and \<open>s\<close>, and \<open>Unwrap\<close> of that struct gives
  back exactly \<open>e\<close>: the wrapped cause is always recoverable.
\<close>

theorem C10_unwrap_new:
  "New e s \<noteq> nil \<and> (\<exists>w. New e s = WorkerError w \<and> Unwrap w = e \<and> Extra w = s)"
  by (simp add: New_def Unwrap_def)

end
